theory Spec2Isabelle
  imports Complex_Main "HOL-Library.Word" "HOL-Library.AList" "HOL-Library.Multiset"
begin

section \<open>Values of the upload middleware (src/index.ts)\<close>

text \<open>
  The middleware is asynchronous TypeScript. The embedding keeps its data as the source
  declares it and makes every effect explicit:
  \<^item> a thrown value is a value of type \<open>thrown\<close>; the message of a \<open>TypeError\<close> or
    \<open>RangeError\<close> raised by the JavaScript runtime itself is the runtime's text, so it is a
    parameter;
  \<^item> a \<open>Buffer\<close> is a list of bytes;
  \<^item> what \<open>JSON.parse\<close> returns is a \<open>json\<close> value: an object or an array is its list of own
    enumerable properties in the order \<open>Object.keys\<close> gives them. Where the code reads or
    writes a property by a name taken from the request (\<open>files[fileKey]\<close>,
    \<open>operations.variables[variableName]\<close>), the prototype of the object takes part.
\<close>

type_synonym buffer = "8 word list"

datatype fault =
    ReadOfUndefined string
  | NotAFunction string
  | WriteToNonObject string
  | InvalidArrayLength

datatype thrown = JsError string | JsTypeError fault | JsRangeError fault | NonError

text \<open>
  A readable stream: the chunks it emits, in order, and then its end or the value its
  reading fails with.
\<close>

datatype ReadableStream = Readable "buffer list" "thrown option"

datatype obj_class = PlainObject | ArrayObject

datatype json = JNull | JBool bool | JNum rat | JStr string
  | JObj obj_class "(string \<times> json) list"

subsection \<open>interface File, interface FormDataFile, class Upload\<close>

text \<open>
  \<open>createReadStream\<close> is \<open>() => bufferToStream(buffer)\<close>: every call gives a fresh stream
  over the same buffer, so the field holds the stream a call gives.
\<close>

record File =
  createReadStream :: ReadableStream
  encoding :: string
  fileName :: string
  fileSize :: nat
  mimeType :: string

text \<open>A file part of the form data; \<open>f_stream\<close> is the stream \<open>await file.stream()\<close> gives.\<close>

record FormDataFile =
  f_lastModified :: nat
  f_name :: string
  f_size :: nat
  f_type :: string
  f_stream :: ReadableStream

datatype 'a promise_state = Pending | Fulfilled 'a | Rejected thrown

record Upload =
  file_field :: "File option"
  promise :: "File promise_state"

text \<open>The resolving functions of a JavaScript promise act on a pending promise only.\<close>

definition settle :: "'a promise_state \<Rightarrow> 'a promise_state \<Rightarrow> 'a promise_state" where
  "settle p q = (case p of Pending \<Rightarrow> q | _ \<Rightarrow> p)"

definition new_Upload :: Upload where
  "new_Upload = \<lparr>file_field = None, promise = Pending\<rparr>"

text \<open>\<open>this.resolve = (file) => { this.file = file; resolve(file) }\<close>\<close>

definition resolve :: "Upload \<Rightarrow> File \<Rightarrow> Upload" where
  "resolve u f = u\<lparr>file_field := Some f, promise := settle (promise u) (Fulfilled f)\<rparr>"

text \<open>\<open>this.reject = reject\<close>\<close>

definition reject :: "Upload \<Rightarrow> thrown \<Rightarrow> Upload" where
  "reject u r = u\<lparr>promise := settle (promise u) (Rejected r)\<rparr>"

subsection \<open>The variables of the operation\<close>

text \<open>
  A property of \<open>operations.variables\<close> holds a parsed JSON value or, once bound, an
  \<open>Upload\<close>. \<open>operations.variables\<close> itself is an object (or array) with such own
  properties, or any other value: \<open>undefined\<close> (\<open>None\<close>), \<open>null\<close> or a primitive. The second
  component of an object is the handle that a write of \<open>__proto__\<close> has made its prototype,
  \<open>None\<close> while the object has the prototype it was parsed with.
\<close>

datatype slot = Plain json | Bound Upload

datatype vars =
    VarsObject obj_class "Upload option" "(string \<times> slot) list"
  | VarsValue "json option"

fun falsy_json :: "json \<Rightarrow> bool" where
  "falsy_json JNull = True"
| "falsy_json (JBool b) = (\<not> b)"
| "falsy_json (JNum n) = (n = 0)"
| "falsy_json (JStr s) = (s = [])"
| "falsy_json (JObj c ps) = False"

fun falsy :: "slot \<Rightarrow> bool" where
  "falsy (Plain j) = falsy_json j"
| "falsy (Bound u) = False"

text \<open>
  The order of own properties: array indices (canonical decimal strings below
  \<open>2^32 - 1\<close>) ascending, then the other keys in the order they were created.
\<close>

definition is_digit :: "char \<Rightarrow> bool" where
  "is_digit c = (48 \<le> (of_char c :: nat) \<and> (of_char c :: nat) \<le> 57)"

definition decimal :: "string \<Rightarrow> nat" where
  "decimal s = foldl (\<lambda>n c. 10 * n + ((of_char c :: nat) - 48)) 0 s"

definition is_array_index :: "string \<Rightarrow> bool" where
  "is_array_index s =
     (case s of [] \<Rightarrow> False
      | c # cs \<Rightarrow> list_all is_digit s \<and> (c \<noteq> CHR ''0'' \<or> cs = []) \<and> decimal s < 4294967295)"

fun insert_index :: "nat \<Rightarrow> string \<Rightarrow> 'v \<Rightarrow> (string \<times> 'v) list \<Rightarrow> (string \<times> 'v) list" where
  "insert_index n k v [] = [(k, v)]"
| "insert_index n k v (p # ps) =
     (if is_array_index (fst p) \<and> decimal (fst p) < n then p # insert_index n k v ps
      else (k, v) # p # ps)"

text \<open>\<open>o[k] = v\<close> on an object: an existing property keeps its place.\<close>

definition set_prop :: "string \<Rightarrow> 'v \<Rightarrow> (string \<times> 'v) list \<Rightarrow> (string \<times> 'v) list" where
  "set_prop k v ps =
     (if map_of ps k = None \<and> is_array_index k then insert_index (decimal k) k v ps
      else AList.update k v ps)"

fun to_vars :: "json option \<Rightarrow> vars" where
  "to_vars (Some (JObj c ps)) = VarsObject c None (map (\<lambda>(k, v). (k, Plain v)) ps)"
| "to_vars v = VarsValue v"

text \<open>The own enumerable properties of the variables, with their values.\<close>

fun own_slots :: "vars \<Rightarrow> (string \<times> slot) list" where
  "own_slots (VarsObject c pr ps) = ps"
| "own_slots (VarsValue v) = []"

definition var_get :: "vars \<Rightarrow> string \<Rightarrow> slot option" where
  "var_get vs k = map_of (own_slots vs) k"

section \<open>Collaborators and inputs\<close>

text \<open>
  What the middleware calls but does not define: \<open>JSON.parse\<close> (\<open>None\<close> is a
  \<open>SyntaxError\<close>), \<open>fileTypeFromBuffer\<close> of the package file-type (the MIME type of a matched
  magic-byte signature), \<open>isText\<close> of the package istextorbinary, the runtime's conversion of
  a number to text inside a template literal, the runtime's text for a \<open>TypeError\<close> or
  \<open>RangeError\<close> of its own, and the property names the runtime's prototypes have:
  \<open>inherited False k\<close> when \<open>Object.prototype\<close> has a property \<open>k\<close>, \<open>inherited True k\<close> when
  a \<open>File\<close> has one, its own or along its prototype chain.
\<close>

record env =
  JSON_parse :: "string \<Rightarrow> json option"
  fileTypeFromBuffer :: "buffer \<Rightarrow> string option"
  isText :: "buffer \<Rightarrow> bool"
  numberToString :: "rat \<Rightarrow> string"
  typeErrorMessage :: "fault \<Rightarrow> string"
  inherited :: "bool \<Rightarrow> string \<Rightarrow> bool"

datatype form_value = TextEntry string | FileEntry FormDataFile

type_synonym FormData = "(string \<times> form_value) list"

text \<open>\<open>request.formData()\<close> resolves to the entries of the body in order, or rejects.\<close>

record NextRequest =
  formData :: "thrown + FormData"

record settings =
  allowedTypes :: "string list"
  maxFileSize :: int

text \<open>
  What \<open>server.executeOperation\<close> does, with its payloads of type \<open>any\<close> left abstract:
  it rejects; it resolves to a response without a body; or the body has kind \<open>'single'\<close> (the
  \<open>data\<close> and \<open>errors\<close> of \<open>singleResult\<close>), kind \<open>'incremental'\<close> (\<open>initialResult\<close>, the finite
  sequence \<open>subsequentResults\<close> emits, and the value the iteration throws after them, if it
  does), or another kind.
\<close>

datatype 'r execution =
    ExecRejects thrown
  | ExecNoBody
  | ExecSingle 'r 'r
  | ExecIncremental 'r "'r list" "thrown option"
  | ExecOther string

text \<open>The body given to \<open>NextResponse.json\<close>; the payloads are taken to serialise.\<close>

datatype 'r response = ErrorBody string | DataErrors 'r 'r | ResultsBody "'r list"

text \<open>
  What has happened when the response is produced: a binding task was dispatched for a
  map key (with its variable name), a task finished reading the bytes of a file (by name),
  a task ran its assignment of a handle to \<open>operations.variables[variableName]\<close>, the
  execution engine was invoked (with the query and the variables).
\<close>

datatype event =
    Dispatched string string
  | Buffered string
  | Assigned string Upload
  | Invoked "json option" vars

section \<open>The functions of src/index.ts\<close>

subsection \<open>extractFiles\<close>

definition extractFiles :: "FormData \<Rightarrow> (string \<rightharpoonup> FormDataFile)" where
  "extractFiles fd =
     foldl (\<lambda>files (key, val). case val of FileEntry f \<Rightarrow> files(key \<mapsto> f) | TextEntry t \<Rightarrow> files)
       Map.empty fd"

text \<open>
  \<open>files\<close> starts as \<open>{}\<close>, so a read \<open>files[fileKey]\<close> that finds no uploaded file goes on
  to the prototype. The write \<open>files[key] = value\<close> with the key \<open>__proto__\<close> makes the file
  the prototype of \<open>files\<close> and a read of \<open>__proto__\<close> gives that file back, as the map does;
  from then on the other names are inherited from the file. What a read gives: an uploaded
  file, a value of a prototype that is no file part (it has no property \<open>size\<close>), or
  \<open>undefined\<close> (\<open>None\<close>).
\<close>

datatype looked_up = Part FormDataFile | Foreign

definition lookup_file ::
  "env \<Rightarrow> (string \<rightharpoonup> FormDataFile) \<Rightarrow> string \<Rightarrow> looked_up option" where
  "lookup_file env files fileKey =
     (case files fileKey of
        Some f \<Rightarrow> Some (Part f)
      | None \<Rightarrow>
          if inherited env (files ''__proto__'' \<noteq> None) fileKey then Some Foreign else None)"

text \<open>\<open>formData.get(name)\<close>: the first entry of that name, or \<open>null\<close>.\<close>

definition form_get :: "FormData \<Rightarrow> string \<Rightarrow> form_value option" where
  "form_get fd name = map_of fd name"

subsection \<open>streamToBuffer and bufferToStream\<close>

text \<open>
  \<open>for await (const chunk of stream) chunks.push(chunk)\<close>, then \<open>Buffer.concat(chunks)\<close>; a
  stream that fails makes the loop throw.
\<close>

fun streamToBuffer :: "ReadableStream \<Rightarrow> thrown + buffer" where
  "streamToBuffer (Readable chunks None) =
     Inr (concat (foldl (\<lambda>chunks chunk. chunks @ [chunk]) [] chunks))"
| "streamToBuffer (Readable chunks (Some e)) = Inl e"

text \<open>\<open>stream.push(buffer); stream.push(null)\<close>\<close>

definition bufferToStream :: "buffer \<Rightarrow> ReadableStream" where
  "bufferToStream buf = Readable [buf] None"

subsection \<open>sanitizeAndValidateJSON\<close>

text \<open>
  The argument is what \<open>formData.get\<close> returned. \<open>JSON.parse\<close> converts it to a string first:
  \<open>null\<close> reads as the text \<open>null\<close> and parses to \<open>null\<close>; a file reads as \<open>[object File]\<close>,
  which is no JSON.
\<close>

definition JSON_parse_input :: "env \<Rightarrow> form_value option \<Rightarrow> json option" where
  "JSON_parse_input env input =
     (case input of
        None \<Rightarrow> Some JNull
      | Some (FileEntry f) \<Rightarrow> None
      | Some (TextEntry s) \<Rightarrow> JSON_parse env s)"

fun typeof_object :: "json \<Rightarrow> bool" where
  "typeof_object JNull = True"
| "typeof_object (JObj c ps) = True"
| "typeof_object j = False"

definition sanitizeAndValidateJSON :: "env \<Rightarrow> form_value option \<Rightarrow> thrown + json" where
  "sanitizeAndValidateJSON env input =
     (case (case JSON_parse_input env input of
              None \<Rightarrow> Inl (JsError ''SyntaxError'')
            | Some result \<Rightarrow>
                if \<not> typeof_object result \<or> result = JNull
                then Inl (JsError ''Invalid JSON structure'')
                else Inr result) of
        Inl error \<Rightarrow> Inl (JsError ''Invalid JSON input'')
      | Inr result \<Rightarrow> Inr result)"

fun props :: "json \<Rightarrow> (string \<times> json) list" where
  "props (JObj c ps) = ps"
| "props j = []"

subsection \<open>The variable name of a map entry\<close>

fun split_on :: "char \<Rightarrow> string \<Rightarrow> string list" where
  "split_on d [] = [[]]"
| "split_on d (c # cs) =
     (if c = d then [] # split_on d cs
      else (case split_on d cs of [] \<Rightarrow> [[c]] | x # xs \<Rightarrow> (c # x) # xs))"

text \<open>\<open>map[fileKey][0]\<close>\<close>

fun index0 :: "json option \<Rightarrow> thrown + json option" where
  "index0 None = Inl (JsTypeError (ReadOfUndefined ''0''))"
| "index0 (Some JNull) = Inl (JsTypeError (ReadOfUndefined ''0''))"
| "index0 (Some (JStr s)) = Inr (case s of [] \<Rightarrow> None | c # cs \<Rightarrow> Some (JStr [c]))"
| "index0 (Some (JObj c ps)) = Inr (map_of ps ''0'')"
| "index0 (Some j) = Inr None"

text \<open>
  \<open>pathSegment.split('.').slice(-1)[0]\<close>. The array \<open>split\<close> returns is never empty; read at
  an empty array the expression would be \<open>undefined\<close>, the property key \<open>undefined\<close>.
\<close>

fun last_segment :: "json option \<Rightarrow> thrown + string" where
  "last_segment None = Inl (JsTypeError (ReadOfUndefined ''split''))"
| "last_segment (Some JNull) = Inl (JsTypeError (ReadOfUndefined ''split''))"
| "last_segment (Some (JStr s)) =
     Inr (case rev (split_on CHR ''.'' s) of [] \<Rightarrow> ''undefined'' | x # xs \<Rightarrow> x)"
| "last_segment (Some j) = Inl (JsTypeError (NotAFunction ''pathSegment.split''))"

definition variable_name :: "json option \<Rightarrow> thrown + string" where
  "variable_name entry =
     (case index0 entry of Inl e \<Rightarrow> Inl e | Inr pathSegment \<Rightarrow> last_segment pathSegment)"

subsection \<open>processUpload\<close>

fun join :: "string \<Rightarrow> string list \<Rightarrow> string" where
  "join sep [] = []"
| "join sep [x] = x"
| "join sep (x # y # ys) = x @ sep @ join sep (y # ys)"

text \<open>
  \<open>operations.variables[variableName] = upload\<close>. On an object without an own property
  \<open>__proto__\<close> the write of \<open>__proto__\<close> reaches the setter of \<open>Object.prototype\<close>: the handle
  becomes the prototype and no own property is created. The write of \<open>length\<close> on an array
  throws a \<open>RangeError\<close>, a handle being no length. Every other write creates or replaces an
  own property. The module is strict code: writing a property of \<open>undefined\<close>, \<open>null\<close> or a
  primitive throws a \<open>TypeError\<close>.
\<close>

fun assign_var :: "vars \<Rightarrow> string \<Rightarrow> Upload \<Rightarrow> thrown + vars" where
  "assign_var (VarsObject c pr ps) k u =
     (if k = ''__proto__'' \<and> map_of ps k = None then Inr (VarsObject c (Some u) ps)
      else if c = ArrayObject \<and> k = ''length'' then Inl (JsRangeError InvalidArrayLength)
      else Inr (VarsObject c pr (set_prop k (Bound u) ps)))"
| "assign_var (VarsValue v) k u = Inl (JsTypeError (WriteToNonObject k))"

definition invalid_properties :: "FormDataFile \<Rightarrow> bool" where
  "invalid_properties f = (f_name f = [] \<or> f_size f = 0 \<or> f_type f = [])"

text \<open>
  The function in its stretches. The check of the properties runs when the function is
  called. Then the bytes are read (lines 128 and 129); then the type is sniffed and, in one
  synchronous stretch after it, checked and the handle assigned (lines 130 to 153). Each
  stretch gives what it throws or what it hands on, with its events. The argument \<open>vs\<close> is
  \<open>operations.variables\<close>, the only part of \<open>operations\<close> the function touches.
\<close>

definition processUpload_read :: "FormDataFile \<Rightarrow> (thrown + buffer) \<times> event list" where
  "processUpload_read f =
     (case streamToBuffer (f_stream f) of
        Inl e \<Rightarrow> (Inl e, [])
      | Inr buf \<Rightarrow> (Inr buf, [Buffered (f_name f)]))"

definition processUpload_bind ::
  "env \<Rightarrow> FormDataFile \<Rightarrow> buffer \<Rightarrow> string \<Rightarrow> vars \<Rightarrow> string list
   \<Rightarrow> (thrown + vars) \<times> event list" where
  "processUpload_bind env f buf variableName vs allowed =
     (let fileType = fileTypeFromBuffer env buf;
          mime = (case fileType of
                    Some m \<Rightarrow> m
                  | None \<Rightarrow> if isText env buf then ''text/plain'' else f_type f)
      in
        if mime \<notin> set allowed
        then (Inl (JsError (''File type '' @ mime @ '' is not allowed. Allowed types: ''
                            @ join '', '' allowed)),
              [])
        else
          let upload = resolve new_Upload
                \<lparr>createReadStream = bufferToStream buf, encoding = ''binary'',
                 fileName = f_name f, fileSize = f_size f, mimeType = mime\<rparr>
          in (case assign_var vs variableName upload of
                Inl e \<Rightarrow> (Inl e, [])
              | Inr vs' \<Rightarrow> (Inr vs', [Assigned variableName upload])))"

text \<open>The function run from its call to its end.\<close>

definition processUpload ::
  "env \<Rightarrow> FormDataFile \<Rightarrow> string \<Rightarrow> vars \<Rightarrow> string list \<Rightarrow> (thrown + vars) \<times> event list" where
  "processUpload env f variableName vs allowed =
     (if invalid_properties f then (Inl (JsError ''Invalid file properties''), [])
      else
        (case processUpload_read f of
           (Inl e, evs) \<Rightarrow> (Inl e, evs)
         | (Inr buf, evs) \<Rightarrow>
             (case processUpload_bind env f buf variableName vs allowed of
                (r, evs') \<Rightarrow> (r, evs @ evs'))))"

text \<open>
  The call with what \<open>files[fileKey]\<close> gave. A value that is no file part has no property
  \<open>size\<close>, so the check of the properties throws.
\<close>

fun rejected_at_call :: "looked_up \<Rightarrow> bool" where
  "rejected_at_call (Part f) = invalid_properties f"
| "rejected_at_call Foreign = True"

fun call_processUpload ::
  "env \<Rightarrow> looked_up \<Rightarrow> string \<Rightarrow> vars \<Rightarrow> string list \<Rightarrow> (thrown + vars) \<times> event list" where
  "call_processUpload env (Part f) variableName vs allowed =
     processUpload env f variableName vs allowed"
| "call_processUpload env Foreign variableName vs allowed =
     (Inl (JsError ''Invalid file properties''), [])"

subsection \<open>uploadProcess\<close>

text \<open>A dispatched binding task: the map key, what was found for it, the variable name.\<close>

type_synonym task = "string \<times> looked_up \<times> string"

definition size_error :: "env \<Rightarrow> settings \<Rightarrow> string" where
  "size_error env st =
     ''File size is too large. Maximum allowed size is ''
     @ numberToString env (of_int (maxFileSize st) / (1024 * 1024)) @ ''MB.''"

text \<open>\<open>file.size > settings.maxFileSize\<close>; with no \<open>size\<close> the comparison is false.\<close>

fun oversized :: "settings \<Rightarrow> looked_up \<Rightarrow> bool" where
  "oversized st (Part f) = (int (f_size f) > maxFileSize st)"
| "oversized st Foreign = False"

text \<open>
  The loop over \<open>Object.keys(map)\<close>. It ends after the last key, returns the size error, or
  throws (reading \<open>size\<close> of \<open>undefined\<close>, or computing the variable name); with it come the
  tasks dispatched until then.
\<close>

datatype loop_exit = LoopDone | LoopReturned string | LoopThrew thrown

fun dispatch_loop ::
  "env \<Rightarrow> settings \<Rightarrow> (string \<rightharpoonup> FormDataFile) \<Rightarrow> json \<Rightarrow> string list \<Rightarrow> task list
   \<Rightarrow> loop_exit \<times> task list" where
  "dispatch_loop env st files m [] uploadPromises = (LoopDone, uploadPromises)"
| "dispatch_loop env st files m (fileKey # keys) uploadPromises =
     (case lookup_file env files fileKey of
        None \<Rightarrow> (LoopThrew (JsTypeError (ReadOfUndefined ''size'')), uploadPromises)
      | Some x \<Rightarrow>
          if oversized st x
          then (LoopReturned (size_error env st), uploadPromises)
          else
            (case variable_name (map_of (props m) fileKey) of
               Inl e \<Rightarrow> (LoopThrew e, uploadPromises)
             | Inr variableName \<Rightarrow>
                 dispatch_loop env st files m keys
                   (uploadPromises @ [(fileKey, x, variableName)])))"

text \<open>
  The tasks run concurrently, each in two stretches after its call: it reads its bytes,
  and later it checks the type and assigns. Between the stretches of one task the others
  may act. Which task acts next depends on the reads; it is the parameter \<open>sched\<close>: each
  number picks, among the tasks still running, the one whose next stretch runs, and when the
  numbers are used up the first running task is picked. Every interleaving of the tasks is
  the run of some \<open>sched\<close>.
\<close>

datatype phase = Reading | Sniffing buffer

type_synonym running = "string \<times> FormDataFile \<times> string \<times> phase"

fun start :: "task list \<Rightarrow> running list" where
  "start [] = []"
| "start ((fileKey, Part f, variableName) # ts) = (fileKey, f, variableName, Reading) # start ts"
| "start ((fileKey, Foreign, variableName) # ts) = start ts"

text \<open>
  The next stretch of a running task: what it throws, or the task as it goes on (\<open>None\<close>
  when it has ended) with the variables.
\<close>

fun step_task ::
  "env \<Rightarrow> string list \<Rightarrow> running \<Rightarrow> vars \<Rightarrow> (thrown + running option \<times> vars) \<times> event list" where
  "step_task env allowed (fileKey, f, variableName, Reading) vs =
     (case processUpload_read f of
        (Inl e, evs) \<Rightarrow> (Inl e, evs)
      | (Inr buf, evs) \<Rightarrow> (Inr (Some (fileKey, f, variableName, Sniffing buf), vs), evs))"
| "step_task env allowed (fileKey, f, variableName, Sniffing buf) vs =
     (case processUpload_bind env f buf variableName vs allowed of
        (Inl e, evs) \<Rightarrow> (Inl e, evs)
      | (Inr vs', evs) \<Rightarrow> (Inr (None, vs'), evs))"

definition pick :: "nat list \<Rightarrow> nat \<Rightarrow> nat" where
  "pick sched n = (case sched of [] \<Rightarrow> 0 | p # ps \<Rightarrow> p mod n)"

definition remove_nth :: "nat \<Rightarrow> 'a list \<Rightarrow> 'a list" where
  "remove_nth i xs = take i xs @ drop (Suc i) xs"

fun after_step :: "nat \<Rightarrow> running option \<Rightarrow> running list \<Rightarrow> running list" where
  "after_step i None rs = remove_nth i rs"
| "after_step i (Some r) rs = rs[i := r]"

fun stretches :: "running \<Rightarrow> nat" where
  "stretches (fileKey, f, variableName, Reading) = 2"
| "stretches (fileKey, f, variableName, Sniffing buf) = 1"

function run_tasks ::
  "env \<Rightarrow> string list \<Rightarrow> nat list \<Rightarrow> running list \<Rightarrow> vars \<Rightarrow> (thrown + vars) \<times> event list" where
  "run_tasks env allowed sched [] vs = (Inr vs, [])"
| "run_tasks env allowed sched (r # rs) vs =
     (case step_task env allowed ((r # rs) ! pick sched (length (r # rs))) vs of
        (Inl e, evs) \<Rightarrow> (Inl e, evs)
      | (Inr (next, vs'), evs) \<Rightarrow>
          (case run_tasks env allowed (tl sched)
                  (after_step (pick sched (length (r # rs))) next (r # rs)) vs' of
             (res, evs') \<Rightarrow> (res, evs @ evs')))"
  by pat_completeness auto
termination
proof (relation "measure (\<lambda>(env, allowed, sched, rs, vs). sum_list (map stretches rs))")
  show "wf (measure (\<lambda>(env, allowed, sched, rs, vs). sum_list (map stretches rs)))" by simp
next
  fix env :: env and allowed sched r rs vs x21 x22 x1 x2 y
  assume step: "(x21, x22) = step_task env allowed ((r # rs) ! pick sched (length (r # rs))) vs"
    and "x21 = Inr x1" and "(x2, y) = x1"
  let ?i = "pick sched (length (r # rs))"
  let ?t = "(r # rs) ! ?i"
  have i: "?i < length (r # rs)" by (simp add: pick_def split: list.splits)
  obtain k f v ph where t: "?t = (k, f, v, ph)" by (cases ?t)
  have whole: "sum_list (map stretches (r # rs))
                 = sum_list (map stretches (remove_nth ?i (r # rs))) + stretches ?t"
  proof -
    have "r # rs = take ?i (r # rs) @ ?t # drop (Suc ?i) (r # rs)"
      using i by (rule id_take_nth_drop)
    then have "map stretches (r # rs)
                 = map stretches (take ?i (r # rs) @ ?t # drop (Suc ?i) (r # rs))"
      by simp
    then show ?thesis by (simp add: remove_nth_def)
  qed
  have upd: "sum_list (map stretches ((r # rs)[?i := u]))
               = sum_list (map stretches (remove_nth ?i (r # rs))) + stretches u" for u
  proof -
    have "(r # rs)[?i := u] = take ?i (r # rs) @ u # drop (Suc ?i) (r # rs)"
      using i by (rule upd_conv_take_nth_drop)
    then show ?thesis by (simp add: remove_nth_def)
  qed
  have pos: "0 < stretches ?t" unfolding t by (cases ph) simp_all
  have "sum_list (map stretches (after_step ?i x2 (r # rs))) < sum_list (map stretches (r # rs))"
  proof (cases x2)
    case None
    with whole pos show ?thesis by simp
  next
    case (Some u)
    with step \<open>x21 = Inr x1\<close> \<open>(x2, y) = x1\<close> t have "stretches u < stretches ?t"
      by (cases ph) (auto split: prod.splits sum.splits)
    with Some whole upd [of u] show ?thesis by simp
  qed
  then show "((env, allowed, tl sched, after_step ?i x2 (r # rs), y), env, allowed, sched, r # rs, vs)
             \<in> measure (\<lambda>(env, allowed, sched, rs, vs). sum_list (map stretches rs))"
    by simp
qed

text \<open>
  \<open>await Promise.all(uploadPromises)\<close>. A task that fails the check of the properties is
  rejected when it is called, before its first \<open>await\<close>; \<open>Promise.all\<close> then rejects with
  the first such task before any other task has ended a stretch. Otherwise it rejects with
  the first stretch that throws, or resolves when all tasks have ended. Tasks still running
  when \<open>Promise.all\<close> rejects are not cancelled; what they do after the function has
  returned is not followed.
\<close>

definition Promise_all ::
  "env \<Rightarrow> nat list \<Rightarrow> string list \<Rightarrow> task list \<Rightarrow> vars \<Rightarrow> (thrown + vars) \<times> event list" where
  "Promise_all env sched allowed uploadPromises vs =
     (case filter (\<lambda>(fileKey, x, variableName). rejected_at_call x) uploadPromises of
        (fileKey, x, variableName) # ts \<Rightarrow> call_processUpload env x variableName vs allowed
      | [] \<Rightarrow> run_tasks env allowed sched (start uploadPromises) vs)"

text \<open>
  \<open>for (const key in operations.variables) if (!operations.variables[key]) delete ...\<close>.
  A value that is not an object has no property to delete (the characters of a string are
  truthy), and so has a handle that has become the prototype (what the loop visits of it,
  its fields, is truthy).
\<close>

definition clean_step :: "(string \<times> slot) list \<Rightarrow> string \<Rightarrow> (string \<times> slot) list" where
  "clean_step ps key =
     (if (case map_of ps key of None \<Rightarrow> True | Some s \<Rightarrow> falsy s) then AList.delete key ps
      else ps)"

fun clean_variables :: "vars \<Rightarrow> vars" where
  "clean_variables (VarsObject c pr ps) = VarsObject c pr (foldl clean_step ps (map fst ps))"
| "clean_variables (VarsValue v) = VarsValue v"

text \<open>
  The branch on \<open>response.body.kind\<close>; \<open>None\<close> is the end of the \<open>try\<close> block reached with no
  \<open>return\<close>, where the function returns \<open>undefined\<close>.
\<close>

fun respond :: "'r execution \<Rightarrow> thrown + 'r response option" where
  "respond (ExecRejects e) = Inl e"
| "respond ExecNoBody = Inl (JsTypeError (ReadOfUndefined ''kind''))"
| "respond (ExecSingle d errors) = Inr (Some (DataErrors d errors))"
| "respond (ExecIncremental initialResult subsequentResults thrown_after) =
     (let results = foldl (\<lambda>results result. results @ [result]) [initialResult] subsequentResults
      in case thrown_after of None \<Rightarrow> Inr (Some (ResultsBody results)) | Some e \<Rightarrow> Inl e)"
| "respond (ExecOther kind) = Inr None"

definition error_message :: "env \<Rightarrow> thrown \<Rightarrow> string" where
  "error_message env e =
     (case e of JsError m \<Rightarrow> m | JsTypeError f \<Rightarrow> typeErrorMessage env f
      | JsRangeError f \<Rightarrow> typeErrorMessage env f | NonError \<Rightarrow> ''Unknown error'')"

text \<open>
  The part of \<open>operations\<close> the function reads: \<open>operations.query\<close> and the object
  \<open>operations.variables\<close>, which the binding tasks mutate.
\<close>

record operations =
  query :: "json option"
  variables :: vars

text \<open>
  The \<open>try\<close> block up to and including \<open>await Promise.all(uploadPromises)\<close>: it throws,
  returns the size error, or goes on with \<open>operations\<close> as the tasks left it.
\<close>

datatype 'a step = Throws thrown | Returns string | Continues 'a

definition dispatched :: "task list \<Rightarrow> event list" where
  "dispatched ts = map (\<lambda>(fileKey, x, variableName). Dispatched fileKey variableName) ts"

definition binding ::
  "env \<Rightarrow> nat list \<Rightarrow> NextRequest \<Rightarrow> settings \<Rightarrow> operations step \<times> event list" where
  "binding env sched request st =
     (case formData request of
        Inl e \<Rightarrow> (Throws e, [])
      | Inr fd \<Rightarrow>
          let files = extractFiles fd in
          (case sanitizeAndValidateJSON env (form_get fd ''map'') of
             Inl e \<Rightarrow> (Throws e, [])
           | Inr m \<Rightarrow>
               (case sanitizeAndValidateJSON env (form_get fd ''operations'') of
                  Inl e \<Rightarrow> (Throws e, [])
                | Inr ops \<Rightarrow>
                    (case dispatch_loop env st files m (map fst (props m)) [] of
                       (LoopThrew e, ts) \<Rightarrow> (Throws e, dispatched ts)
                     | (LoopReturned msg, ts) \<Rightarrow> (Returns msg, dispatched ts)
                     | (LoopDone, ts) \<Rightarrow>
                         (case Promise_all env sched (allowedTypes st) ts
                                 (to_vars (map_of (props ops) ''variables'')) of
                            (Inl e, evs) \<Rightarrow> (Throws e, dispatched ts @ evs)
                          | (Inr vs, evs) \<Rightarrow>
                              (Continues \<lparr>query = map_of (props ops) ''query'', variables = vs\<rparr>,
                               dispatched ts @ evs))))))"

text \<open>
  The whole \<open>try\<close> block: what it throws, or what it returns, with the events until then.
  \<open>context\<close> is what \<open>await context\<close> gives, \<open>server\<close> is \<open>server.executeOperation\<close>.
\<close>

definition try_block ::
  "env \<Rightarrow> nat list \<Rightarrow> NextRequest \<Rightarrow> thrown + 'c \<Rightarrow> (json option \<Rightarrow> vars \<Rightarrow> 'c \<Rightarrow> 'r execution)
   \<Rightarrow> settings \<Rightarrow> (thrown + 'r response option) \<times> event list" where
  "try_block env sched request context server st =
     (case binding env sched request st of
        (Throws e, evs) \<Rightarrow> (Inl e, evs)
      | (Returns msg, evs) \<Rightarrow> (Inr (Some (ErrorBody msg)), evs)
      | (Continues ops, evs) \<Rightarrow>
          let cleaned = clean_variables (variables ops) in
          (case context of
             Inl e \<Rightarrow> (Inl e, evs)
           | Inr contextValue \<Rightarrow>
               (respond (server (query ops) cleaned contextValue),
                evs @ [Invoked (query ops) cleaned])))"

text \<open>
  The function: the \<open>catch\<close> clause turns what the block throws into an error body. The
  result is the body of the response, \<open>None\<close> when the function returns \<open>undefined\<close>, and
  the events until then.
\<close>

definition uploadProcess ::
  "env \<Rightarrow> nat list \<Rightarrow> NextRequest \<Rightarrow> thrown + 'c \<Rightarrow> (json option \<Rightarrow> vars \<Rightarrow> 'c \<Rightarrow> 'r execution)
   \<Rightarrow> settings \<Rightarrow> 'r response option \<times> event list" where
  "uploadProcess env sched request context server st =
     (case try_block env sched request context server st of
        (Inl error, evs) \<Rightarrow>
          (Some (ErrorBody (''Error processing upload: '' @ error_message env error)), evs)
      | (Inr r, evs) \<Rightarrow> (r, evs))"

definition engine_invoked :: "event list \<Rightarrow> bool" where
  "engine_invoked evs = list_ex (\<lambda>e. case e of Invoked q v \<Rightarrow> True | _ \<Rightarrow> False) evs"

definition is_error_body :: "'r response option \<Rightarrow> bool" where
  "is_error_body r = (case r of Some (ErrorBody msg) \<Rightarrow> True | _ \<Rightarrow> False)"

section \<open>The words of the specification\<close>

text \<open>
  The effective MIME type as the specification orders it: the canonical type of a matched
  magic-byte signature; otherwise \<open>text/plain\<close> when the heuristic classifies the buffer as
  text; otherwise the type the client declared.
\<close>

definition effective_mime :: "env \<Rightarrow> string \<Rightarrow> buffer \<Rightarrow> string" where
  "effective_mime env declared buf =
     (case fileTypeFromBuffer env buf of
        Some canonical \<Rightarrow> canonical
      | None \<Rightarrow> if isText env buf then ''text/plain'' else declared)"

text \<open>
  The descriptor the specification expects for a file part with the buffered bytes, and a
  handle resolved to a descriptor.
\<close>

definition descriptor_of :: "env \<Rightarrow> FormDataFile \<Rightarrow> buffer \<Rightarrow> File" where
  "descriptor_of env f buf =
     \<lparr>createReadStream = bufferToStream buf, encoding = ''binary'', fileName = f_name f,
      fileSize = f_size f, mimeType = effective_mime env (f_type f) buf\<rparr>"

definition resolved_to :: "File \<Rightarrow> Upload" where
  "resolved_to d = \<lparr>file_field = Some d, promise = Fulfilled d\<rparr>"


text \<open>
  A field of the form data that is present, is text, and parses to a value of type
  \<open>object\<close> other than \<open>null\<close> (an object or an array).
\<close>

definition parses_to_object :: "env \<Rightarrow> form_value option \<Rightarrow> bool" where
  "parses_to_object env field =
     (case field of
        Some (TextEntry s) \<Rightarrow> (case JSON_parse env s of Some (JObj c ps) \<Rightarrow> True | _ \<Rightarrow> False)
      | _ \<Rightarrow> False)"

text \<open>Calls made on a handle after its creation, in order.\<close>

datatype settle_call = CallResolve File | CallReject thrown

fun call :: "Upload \<Rightarrow> settle_call \<Rightarrow> Upload" where
  "call u (CallResolve f) = resolve u f"
| "call u (CallReject r) = reject u r"

fun resolved_files :: "settle_call list \<Rightarrow> File list" where
  "resolved_files [] = []"
| "resolved_files (CallResolve f # cs) = f # resolved_files cs"
| "resolved_files (CallReject r # cs) = resolved_files cs"

text \<open>
  The loop dispatches the task \<open>t\<close> for a map key: the read of \<open>files\<close> gave a file whose
  declared size is within the ceiling, or a value that is no file part, and the variable
  name is computed from the entry of the key.
\<close>

definition dispatches ::
  "env \<Rightarrow> settings \<Rightarrow> (string \<rightharpoonup> FormDataFile) \<Rightarrow> json \<Rightarrow> string \<Rightarrow> task \<Rightarrow> bool" where
  "dispatches env st files m k t =
     (case t of (fileKey, x, variableName) \<Rightarrow>
        fileKey = k \<and> lookup_file env files k = Some x \<and> \<not> oversized st x
        \<and> variable_name (map_of (props m) k) = Inr variableName)"









text \<open>
  The write \<open>variables[k] = upload\<close> makes or replaces an own property of the variables with
  the class \<open>c\<close> and the own properties \<open>ps\<close>: \<open>k\<close> is not \<open>__proto__\<close>, unless the variables have
  that own property, and is not \<open>length\<close> when the variables are an array.
\<close>

definition own_write :: "obj_class \<Rightarrow> (string \<times> 'v) list \<Rightarrow> string \<Rightarrow> bool" where
  "own_write c ps k =
     ((k \<noteq> ''__proto__'' \<or> map_of ps k \<noteq> None) \<and> (c \<noteq> ArrayObject \<or> k \<noteq> ''length''))"



section \<open>The scenario of the specification, as concrete values\<close>

definition demo_map_text :: string where
  \<open>demo_map_text = ''{"0":["variables.file"]}''\<close>

definition demo_operations_text :: string where
  \<open>demo_operations_text = ''{"query":"mutation","variables":{"file":null,"note":""}}''\<close>

definition demo_map2_text :: string where
  \<open>demo_map2_text = ''{"0":["variables.file"],"1":["variables.big"]}''\<close>

definition demo_map :: json where
  "demo_map = JObj PlainObject [(''0'', JObj ArrayObject [(''0'', JStr ''variables.file'')])]"

definition demo_map2 :: json where
  "demo_map2 =
     JObj PlainObject
       [(''0'', JObj ArrayObject [(''0'', JStr ''variables.file'')]),
        (''1'', JObj ArrayObject [(''0'', JStr ''variables.big'')])]"

definition demo_operations :: json where
  "demo_operations =
     JObj PlainObject
       [(''query'', JStr ''mutation''),
        (''variables'', JObj PlainObject [(''file'', JNull), (''note'', JStr [])])]"

definition demo_map_inherited_text :: string where
  \<open>demo_map_inherited_text = ''{"constructor":["variables.file"]}''\<close>

definition demo_map_inherited :: json where
  "demo_map_inherited =
     JObj PlainObject [(''constructor'', JObj ArrayObject [(''0'', JStr ''variables.file'')])]"

definition demo_parse :: "string \<Rightarrow> json option" where
  "demo_parse s =
     (if s = demo_map_text then Some demo_map
      else if s = demo_map2_text then Some demo_map2
      else if s = demo_map_inherited_text then Some demo_map_inherited
      else if s = demo_operations_text then Some demo_operations
      else None)"

definition png_signature :: buffer where
  "png_signature = [0x89, 0x50, 0x4E, 0x47, 0x0D, 0x0A, 0x1A, 0x0A]"

fun demo_typeErrorMessage :: "fault \<Rightarrow> string" where
  "demo_typeErrorMessage (ReadOfUndefined p) =
     ''Cannot read properties of undefined (reading '' @ p @ '')''"
| "demo_typeErrorMessage (NotAFunction f) = f @ '' is not a function''"
| "demo_typeErrorMessage (WriteToNonObject k) =
     ''Cannot set properties of undefined (setting '' @ k @ '')''"
| "demo_typeErrorMessage InvalidArrayLength = ''Invalid array length''"

definition demo_env :: env where
  "demo_env =
     \<lparr>JSON_parse = demo_parse,
      fileTypeFromBuffer = (\<lambda>b. if take 8 b = png_signature then Some ''image/png'' else None),
      isText = (\<lambda>b. 0 \<notin> set b),
      numberToString =
        (\<lambda>q. if q = 1 then ''1''
             else if q = 1 / 1024 then ''0.0009765625''
             else if q = 4 / 1048576 then ''0.000003814697265625''
             else if q = 10 / 1048576 then ''0.0000095367431640625''
             else ''NaN''),
      typeErrorMessage = demo_typeErrorMessage,
      inherited =
        (\<lambda>of_file k.
           k \<in> set [''constructor'', ''toString'', ''toLocaleString'', ''valueOf'',
                     ''hasOwnProperty'', ''isPrototypeOf'', ''propertyIsEnumerable'',
                     ''__proto__'', ''__defineGetter__'', ''__defineSetter__'',
                     ''__lookupGetter__'', ''__lookupSetter__'']
           \<or> of_file \<and> k \<in> set [''name'', ''size'', ''type'', ''lastModified'', ''slice'',
                                   ''stream'', ''text'', ''arrayBuffer''])\<rparr>"

definition demo_file :: FormDataFile where
  "demo_file =
     \<lparr>f_lastModified = 0, f_name = ''a.txt'', f_size = 5,
      f_type = ''application/octet-stream'',
      f_stream = Readable [[0x68, 0x65], [0x6C, 0x6C, 0x6F]] None\<rparr>"

definition demo_png :: FormDataFile where
  "demo_png =
     \<lparr>f_lastModified = 0, f_name = ''a.png'', f_size = 9,
      f_type = ''application/octet-stream'',
      f_stream = Readable [png_signature, [0]] None\<rparr>"

definition demo_empty_file :: FormDataFile where
  "demo_empty_file =
     \<lparr>f_lastModified = 0, f_name = ''empty.txt'', f_size = 0,
      f_type = ''text/plain'', f_stream = Readable [] None\<rparr>"

definition demo_big_file :: FormDataFile where
  "demo_big_file =
     \<lparr>f_lastModified = 0, f_name = ''big.bin'', f_size = 2048,
      f_type = ''application/octet-stream'',
      f_stream = Readable [[0, 1, 2]] None\<rparr>"

definition demo_form2 :: FormData where
  "demo_form2 =
     [(''operations'', TextEntry demo_operations_text), (''map'', TextEntry demo_map2_text),
      (''0'', FileEntry demo_file), (''1'', FileEntry demo_big_file)]"

definition demo_form :: FormData where
  "demo_form =
     [(''operations'', TextEntry demo_operations_text), (''map'', TextEntry demo_map_text),
      (''0'', FileEntry demo_file)]"

definition demo_form_missing :: FormData where
  "demo_form_missing =
     [(''operations'', TextEntry demo_operations_text), (''map'', TextEntry demo_map_text)]"

definition demo_form_empty :: FormData where
  "demo_form_empty =
     [(''operations'', TextEntry demo_operations_text), (''map'', TextEntry demo_map_text),
      (''0'', FileEntry demo_empty_file)]"

definition demo_form_malformed :: FormData where
  "demo_form_malformed =
     [(''operations'', TextEntry ''{not json''), (''map'', TextEntry demo_map_text),
      (''0'', FileEntry demo_file)]"

definition demo_request :: NextRequest where
  "demo_request = \<lparr>formData = Inr demo_form\<rparr>"

definition demo_settings :: settings where
  "demo_settings = \<lparr>allowedTypes = [''text/plain''], maxFileSize = 1024\<rparr>"

definition demo_descriptor :: File where
  "demo_descriptor =
     \<lparr>createReadStream = bufferToStream [0x68, 0x65, 0x6C, 0x6C, 0x6F], encoding = ''binary'',
      fileName = ''a.txt'', fileSize = 5, mimeType = ''text/plain''\<rparr>"






text \<open>A form whose map has one key, a name of \<open>Object.prototype\<close>.\<close>

definition demo_form_inherited :: FormData where
  "demo_form_inherited =
     [(''operations'', TextEntry demo_operations_text),
      (''map'', TextEntry demo_map_inherited_text), (''0'', FileEntry demo_file)]"

text \<open>An engine that answers every operation with one single result.\<close>

definition demo_server :: "json option \<Rightarrow> vars \<Rightarrow> unit \<Rightarrow> json execution" where
  "demo_server q vs c = ExecSingle (JStr ''stored'') JNull"

definition demo_incremental_server :: "json option \<Rightarrow> vars \<Rightarrow> unit \<Rightarrow> json execution" where
  "demo_incremental_server q vs c =
     ExecIncremental (JStr ''initial'') [JStr ''first'', JStr ''second''] None"

definition demo_other_server :: "json option \<Rightarrow> vars \<Rightarrow> unit \<Rightarrow> json execution" where
  "demo_other_server q vs c = ExecOther ''chunked''"

section \<open>Properties of the values\<close>

lemma insert_index_lookup:
  "map_of ps k = None \<Longrightarrow> map_of (insert_index n k v ps) = (map_of ps)(k \<mapsto> v)"
proof (induction ps)
  case Nil
  show ?case by simp
next
  case (Cons p ps)
  obtain k' v' where p: "p = (k', v')" by (cases p)
  from Cons.prems p have ne: "k' \<noteq> k" and none: "map_of ps k = None"
    by (auto split: if_splits)
  show ?case using Cons.IH [OF none] ne p by (auto simp: fun_upd_twist)
qed

lemma set_prop_lookup: "map_of (set_prop k v ps) = (map_of ps)(k \<mapsto> v)"
  by (simp add: set_prop_def insert_index_lookup update_conv')

lemma resolve_new_Upload: "resolve new_Upload d = resolved_to d"
  by (simp add: resolve_def new_Upload_def resolved_to_def settle_def)

lemma promise_call_settled: "promise u = Fulfilled d \<Longrightarrow> promise (call u c) = Fulfilled d"
  by (cases c) (simp_all add: resolve_def reject_def settle_def)

lemma promise_calls_settled:
  "promise u = Fulfilled d \<Longrightarrow> promise (foldl call u cs) = Fulfilled d"
  by (induction cs arbitrary: u) (simp_all add: promise_call_settled)

lemma file_field_calls:
  "file_field u = Some d \<Longrightarrow> file_field (foldl call u cs) = Some (last (d # resolved_files cs))"
proof (induction cs arbitrary: u d)
  case Nil
  then show ?case by simp
next
  case (Cons c cs)
  show ?case
  proof (cases c)
    case (CallResolve f)
    have "file_field (call u c) = Some f" by (simp add: CallResolve resolve_def)
    from Cons.IH [OF this] show ?thesis by (simp add: CallResolve)
  next
    case (CallReject r)
    have "file_field (call u c) = Some d" using Cons.prems by (simp add: CallReject reject_def)
    from Cons.IH [OF this] show ?thesis by (simp add: CallReject)
  qed
qed

section \<open>Properties of sanitizeAndValidateJSON\<close>

lemma sanitize_Inr:
  "sanitizeAndValidateJSON env input = Inr m \<longleftrightarrow>
     (\<exists>c ps. m = JObj c ps \<and> JSON_parse_input env input = Some m)"
  by (cases "JSON_parse_input env input"; cases m)
     (auto simp: sanitizeAndValidateJSON_def split: json.splits option.splits if_splits)

lemma sanitize_Inl:
  "sanitizeAndValidateJSON env input = Inl e \<Longrightarrow> e = JsError ''Invalid JSON input''"
  by (auto simp: sanitizeAndValidateJSON_def split: sum.splits option.splits if_splits)

lemma sanitize_not_object:
  assumes "\<not> parses_to_object env input"
  shows "sanitizeAndValidateJSON env input = Inl (JsError ''Invalid JSON input'')"
proof (cases "sanitizeAndValidateJSON env input")
  case (Inl e)
  then show ?thesis by (simp add: sanitize_Inl)
next
  case (Inr m)
  then obtain c ps where "JSON_parse_input env input = Some (JObj c ps)"
    by (auto simp: sanitize_Inr)
  then have "parses_to_object env input"
    by (auto simp: JSON_parse_input_def parses_to_object_def
             split: option.splits form_value.splits)
  with assms show ?thesis by simp
qed

section \<open>The Upload handle\<close>

text \<open>
  Claim C9, as stated, fails: a second call of \<open>resolve\<close> with another descriptor changes
  the \<open>file\<close> field of the handle, since \<open>this.file = file\<close> runs on every call.
\<close>

theorem C9_second_resolve_counterexample:
  "file_field (resolve (resolve new_Upload demo_descriptor) (demo_descriptor\<lparr>fileName := ''b.txt''\<rparr>))
   \<noteq> file_field (resolve new_Upload demo_descriptor)"
  by (simp add: resolve_def new_Upload_def demo_descriptor_def)

text \<open>
  Claim C9, amended: after \<open>resolve\<close> has been called with a descriptor, whatever calls of
  \<open>resolve\<close> and \<open>reject\<close> follow, the promise of the handle stays fulfilled with that first
  descriptor; the \<open>file\<close> field holds the descriptor of the most recent call of \<open>resolve\<close>,
  and \<open>reject\<close> leaves it as it is.
\<close>

theorem C9_promise_first_resolution_wins:
  "promise (foldl call (resolve new_Upload d) cs) = Fulfilled d
   \<and> file_field (foldl call (resolve new_Upload d) cs) = Some (last (d # resolved_files cs))"
  by (simp add: promise_calls_settled file_field_calls resolve_new_Upload resolved_to_def)

section \<open>Properties of processUpload\<close>

lemma processUpload_invalid:
  "invalid_properties f \<Longrightarrow>
   processUpload env f v vs allowed = (Inl (JsError ''Invalid file properties''), [])"
  by (simp add: processUpload_def)

lemma assign_var_own:
  "own_write c ps k \<Longrightarrow>
   assign_var (VarsObject c pr ps) k u = Inr (VarsObject c pr (set_prop k (Bound u) ps))"
  by (auto simp: own_write_def)

lemma processUpload_bind_accepted:
  assumes "effective_mime env (f_type f) buf \<in> set allowed" and "own_write c ps v"
  shows "processUpload_bind env f buf v (VarsObject c pr ps) allowed =
           (Inr (VarsObject c pr (set_prop v (Bound (resolved_to (descriptor_of env f buf))) ps)),
            [Assigned v (resolved_to (descriptor_of env f buf))])"
  using assms(1)
  by (simp add: processUpload_bind_def effective_mime_def descriptor_of_def resolve_new_Upload
        Let_def assign_var_own [OF assms(2)] del: assign_var.simps)

lemma processUpload_accepted:
  assumes "\<not> invalid_properties f" and "streamToBuffer (f_stream f) = Inr buf"
    and "effective_mime env (f_type f) buf \<in> set allowed" and "own_write c ps v"
  shows "processUpload env f v (VarsObject c pr ps) allowed =
           (Inr (VarsObject c pr (set_prop v (Bound (resolved_to (descriptor_of env f buf))) ps)),
            [Buffered (f_name f), Assigned v (resolved_to (descriptor_of env f buf))])"
  using assms(1,2)
  by (simp add: processUpload_def processUpload_read_def
        processUpload_bind_accepted [OF assms(3,4)])

lemma processUpload_bind_Inr:
  assumes "processUpload_bind env f buf v vs allowed = (Inr vs', evs)"
  shows "effective_mime env (f_type f) buf \<in> set allowed
         \<and> assign_var vs v (resolved_to (descriptor_of env f buf)) = Inr vs'
         \<and> evs = [Assigned v (resolved_to (descriptor_of env f buf))]"
  using assms
  by (auto simp: processUpload_bind_def effective_mime_def descriptor_of_def resolve_new_Upload
        Let_def split: if_splits sum.splits)

lemma processUpload_Inr:
  assumes "processUpload env f v vs allowed = (Inr vs', evs)"
  shows "\<exists>buf. \<not> invalid_properties f \<and> streamToBuffer (f_stream f) = Inr buf
           \<and> effective_mime env (f_type f) buf \<in> set allowed
           \<and> assign_var vs v (resolved_to (descriptor_of env f buf)) = Inr vs'
           \<and> evs = [Buffered (f_name f), Assigned v (resolved_to (descriptor_of env f buf))]"
proof -
  from assms have valid: "\<not> invalid_properties f"
    by (auto simp: processUpload_def split: if_splits)
  from assms valid obtain buf where buf: "streamToBuffer (f_stream f) = Inr buf"
    by (cases "streamToBuffer (f_stream f)") (auto simp: processUpload_def processUpload_read_def)
  obtain r evs' where bind: "processUpload_bind env f buf v vs allowed = (r, evs')"
    by (cases "processUpload_bind env f buf v vs allowed")
  with assms valid buf have "r = Inr vs'" "evs = Buffered (f_name f) # evs'"
    by (simp_all add: processUpload_def processUpload_read_def)
  with processUpload_bind_Inr [of env f buf v vs allowed vs' evs'] bind valid buf
  show ?thesis by auto
qed

lemma assign_var_lookup:
  assumes "assign_var vs k u = Inr vs'" and "k \<noteq> ''__proto__'' \<or> var_get vs k \<noteq> None"
  shows "var_get vs' k = Some (Bound u)"
proof (cases vs)
  case (VarsObject c pr ps)
  with assms show ?thesis
    by (auto simp: var_get_def set_prop_lookup split: if_splits)
next
  case (VarsValue x)
  with assms show ?thesis by simp
qed

text \<open>
  Claim C4: a file that \<open>processUpload\<close> binds was read into a buffer, and the MIME type of
  its descriptor is, in this order, the canonical type of the signature \<open>fileTypeFromBuffer\<close>
  matched, else \<open>text/plain\<close> when \<open>isText\<close> holds of the buffer, else the declared
  \<open>file.type\<close>; that type is the one checked against the allowed types. With a matched
  signature the declared type plays no part. The handle resolved to that descriptor is the
  one assigned; it is then an own property of the variables, unless the variable name is
  \<open>__proto__\<close> and the variables had no such own property.
\<close>

theorem C4_effective_mime_priority:
  assumes "processUpload env f v vs allowed = (Inr vs', evs)"
  shows "\<exists>buf d. streamToBuffer (f_stream f) = Inr buf \<and> d = descriptor_of env f buf
           \<and> evs = [Buffered (f_name f), Assigned v (resolved_to d)]
           \<and> (v \<noteq> ''__proto__'' \<or> var_get vs v \<noteq> None
                \<longrightarrow> var_get vs' v = Some (Bound (resolved_to d)))
           \<and> mimeType d \<in> set allowed
           \<and> mimeType d =
               (case fileTypeFromBuffer env buf of
                  Some canonical \<Rightarrow> canonical
                | None \<Rightarrow> if isText env buf then ''text/plain'' else f_type f)"
proof -
  from processUpload_Inr [OF assms] obtain buf where
    buf: "streamToBuffer (f_stream f) = Inr buf"
    and mime: "effective_mime env (f_type f) buf \<in> set allowed"
    and asg: "assign_var vs v (resolved_to (descriptor_of env f buf)) = Inr vs'"
    and evs: "evs = [Buffered (f_name f), Assigned v (resolved_to (descriptor_of env f buf))]"
    by blast
  have "v \<noteq> ''__proto__'' \<or> var_get vs v \<noteq> None
          \<longrightarrow> var_get vs' v = Some (Bound (resolved_to (descriptor_of env f buf)))"
    using assign_var_lookup [OF asg] by blast
  moreover have "mimeType (descriptor_of env f buf) = effective_mime env (f_type f) buf"
    by (simp add: descriptor_of_def)
  ultimately show ?thesis using buf mime evs by (auto simp: effective_mime_def)
qed

text \<open>
  A buffer with the PNG signature, declared \<open>application/octet-stream\<close>, is bound as
  \<open>image/png\<close>.
\<close>

theorem C4_effective_mime_priority_witness:
  "processUpload demo_env demo_png ''file'' (VarsObject PlainObject None [])
     [''image/png'', ''text/plain'']
     = (Inr (VarsObject PlainObject None
               [(''file'', Bound (resolved_to (descriptor_of demo_env demo_png (png_signature @ [0]))))]),
        [Buffered ''a.png'',
         Assigned ''file'' (resolved_to (descriptor_of demo_env demo_png (png_signature @ [0])))])
   \<and> f_type demo_png = ''application/octet-stream''
   \<and> (\<exists>buf d. streamToBuffer (f_stream demo_png) = Inr buf
         \<and> d = descriptor_of demo_env demo_png buf
         \<and> var_get (VarsObject PlainObject None
               [(''file'', Bound (resolved_to (descriptor_of demo_env demo_png (png_signature @ [0]))))])
              ''file'' = Some (Bound (resolved_to d))
         \<and> mimeType d = ''image/png'')"
proof -
  have run: "processUpload demo_env demo_png ''file'' (VarsObject PlainObject None [])
     [''image/png'', ''text/plain'']
     = (Inr (VarsObject PlainObject None
               [(''file'', Bound (resolved_to (descriptor_of demo_env demo_png (png_signature @ [0]))))]),
        [Buffered ''a.png'',
         Assigned ''file'' (resolved_to (descriptor_of demo_env demo_png (png_signature @ [0])))])"
    by (simp add: processUpload_def processUpload_read_def processUpload_bind_def demo_png_def
          demo_env_def invalid_properties_def png_signature_def resolve_new_Upload
          descriptor_of_def effective_mime_def set_prop_def is_array_index_def is_digit_def
          Let_def)
  from C4_effective_mime_priority [OF run] show ?thesis
    using run by (auto simp: demo_png_def demo_env_def png_signature_def)
qed

section \<open>The envelope gate\<close>

text \<open>
  Claim C3: when the \<open>map\<close> field or the \<open>operations\<close> field is absent, is not text, or does
  not parse to a value of type \<open>object\<close> other than \<open>null\<close>, the function returns the error
  body for invalid JSON and nothing has happened: no task was dispatched, so no bytes of a
  file were buffered, and the engine was not invoked.
\<close>

theorem C3_malformed_envelope_fails_fast:
  assumes "formData request = Inr fd"
    and "\<not> parses_to_object env (form_get fd ''map'')
         \<or> \<not> parses_to_object env (form_get fd ''operations'')"
  shows "uploadProcess env sched request context server st
           = (Some (ErrorBody ''Error processing upload: Invalid JSON input''), [])"
proof (cases "sanitizeAndValidateJSON env (form_get fd ''map'')")
  case (Inl e)
  then have "e = JsError ''Invalid JSON input''" by (rule sanitize_Inl)
  with Inl assms(1) show ?thesis
    by (simp add: uploadProcess_def try_block_def binding_def error_message_def)
next
  case (Inr m)
  then have "parses_to_object env (form_get fd ''map'')"
    using sanitize_not_object by fastforce
  with assms(2) have "\<not> parses_to_object env (form_get fd ''operations'')" by simp
  then have "sanitizeAndValidateJSON env (form_get fd ''operations'')
               = Inl (JsError ''Invalid JSON input'')"
    by (rule sanitize_not_object)
  with Inr assms(1) show ?thesis
    by (simp add: uploadProcess_def try_block_def binding_def error_message_def)
qed

text \<open>The scenario of the specification: the \<open>operations\<close> field is \<open>{not json\<close>.\<close>

theorem C3_malformed_envelope_fails_fast_witness:
  "formData \<lparr>formData = Inr demo_form_malformed\<rparr> = Inr demo_form_malformed
   \<and> \<not> parses_to_object demo_env (form_get demo_form_malformed ''operations'')
   \<and> uploadProcess demo_env [] \<lparr>formData = Inr demo_form_malformed\<rparr> (Inr ()) demo_server
        demo_settings
      = (Some (ErrorBody ''Error processing upload: Invalid JSON input''), [])"
proof -
  have h1: "formData \<lparr>formData = Inr demo_form_malformed\<rparr> = Inr demo_form_malformed"
    by simp
  have h2: "\<not> parses_to_object demo_env (form_get demo_form_malformed ''operations'')"
    by (simp add: parses_to_object_def form_get_def demo_env_def demo_parse_def
          demo_form_malformed_def demo_map_text_def demo_map2_text_def
          demo_map_inherited_text_def demo_operations_text_def)
  from C3_malformed_envelope_fails_fast [OF h1 disjI2 [OF h2]] h1 h2 show ?thesis by blast
qed

section \<open>Events\<close>

lemma engine_invoked_append [simp]:
  "engine_invoked (xs @ ys) = (engine_invoked xs \<or> engine_invoked ys)"
  by (simp add: engine_invoked_def)

lemma engine_invoked_Nil [simp]: "\<not> engine_invoked []"
  by (simp add: engine_invoked_def)

lemma engine_invoked_dispatched [simp]: "\<not> engine_invoked (dispatched ts)"
  by (induction ts) (auto simp: engine_invoked_def dispatched_def)

lemma engine_invoked_member: "Invoked q V \<in> set evs \<Longrightarrow> engine_invoked evs"
  by (force simp: engine_invoked_def list_ex_iff)

lemma processUpload_read_not_invoked [simp]:
  "\<not> engine_invoked (snd (processUpload_read f))"
  by (auto simp: processUpload_read_def engine_invoked_def split: sum.splits)

lemma processUpload_bind_not_invoked [simp]:
  "\<not> engine_invoked (snd (processUpload_bind env f buf v vs allowed))"
  by (auto simp: processUpload_bind_def engine_invoked_def Let_def split: sum.splits)

lemma processUpload_not_invoked [simp]:
  "\<not> engine_invoked (snd (processUpload env f v vs allowed))"
proof -
  obtain r evs where rd: "processUpload_read f = (r, evs)" by (cases "processUpload_read f")
  then have evs: "\<not> engine_invoked evs"
    using processUpload_read_not_invoked [of f] by simp
  show ?thesis
  proof (cases r)
    case (Inl e)
    with rd evs show ?thesis by (simp add: processUpload_def)
  next
    case (Inr buf)
    obtain r' evs' where bd: "processUpload_bind env f buf v vs allowed = (r', evs')"
      by (cases "processUpload_bind env f buf v vs allowed")
    then have "\<not> engine_invoked evs'"
      using processUpload_bind_not_invoked [of env f buf v vs allowed] by simp
    with rd evs Inr bd show ?thesis by (simp add: processUpload_def)
  qed
qed

lemma step_task_not_invoked [simp]: "\<not> engine_invoked (snd (step_task env allowed r vs))"
proof -
  obtain k f v ph where r: "r = (k, f, v, ph)" by (cases r)
  show ?thesis
  proof (cases ph)
    case Reading
    obtain x evs where rd: "processUpload_read f = (x, evs)" by (cases "processUpload_read f")
    then have "\<not> engine_invoked evs" using processUpload_read_not_invoked [of f] by simp
    with r Reading rd show ?thesis by (cases x) simp_all
  next
    case (Sniffing buf)
    obtain x evs where bd: "processUpload_bind env f buf v vs allowed = (x, evs)"
      by (cases "processUpload_bind env f buf v vs allowed")
    then have "\<not> engine_invoked evs"
      using processUpload_bind_not_invoked [of env f buf v vs allowed] by simp
    with r Sniffing bd show ?thesis by (cases x) simp_all
  qed
qed

lemma run_tasks_not_invoked [simp]:
  "\<not> engine_invoked (snd (run_tasks env allowed sched rs vs))"
proof (induction env allowed sched rs vs rule: run_tasks.induct)
  case (1 env allowed sched vs)
  show ?case by simp
next
  case (2 env allowed sched r rs vs)
  let ?i = "pick sched (length (r # rs))"
  obtain x evs where st: "step_task env allowed ((r # rs) ! ?i) vs = (x, evs)"
    by (cases "step_task env allowed ((r # rs) ! ?i) vs")
  then have evs: "\<not> engine_invoked evs"
    using step_task_not_invoked [of env allowed "(r # rs) ! ?i" vs] by simp
  show ?case
  proof (cases x)
    case (Inl e)
    with st evs show ?thesis by simp
  next
    case (Inr y)
    obtain nxt vs' where y: "y = (nxt, vs')" by (cases y)
    obtain res evs' where rec:
      "run_tasks env allowed (tl sched) (after_step ?i nxt (r # rs)) vs' = (res, evs')"
      by (cases "run_tasks env allowed (tl sched) (after_step ?i nxt (r # rs)) vs'")
    from "2.IH" [OF st [symmetric] Inr y [symmetric]] rec have "\<not> engine_invoked evs'"
      by simp
    with st evs Inr y rec show ?thesis by simp
  qed
qed

lemma call_processUpload_not_invoked [simp]:
  "\<not> engine_invoked (snd (call_processUpload env x v vs allowed))"
  by (cases x) simp_all

lemma Promise_all_not_invoked [simp]:
  "\<not> engine_invoked (snd (Promise_all env sched allowed ts vs))"
  by (auto simp: Promise_all_def split: list.splits)

lemma binding_not_invoked [simp]: "\<not> engine_invoked (snd (binding env sched request st))"
proof -
  have "\<not> engine_invoked (snd (Promise_all env sched allowed ts vs))" for allowed ts vs
    by simp
  then have pa: "Promise_all env sched allowed ts vs = (r, evs) \<Longrightarrow> \<not> engine_invoked evs"
    for allowed ts vs r evs
    by (metis snd_conv)
  show ?thesis
    by (auto simp: binding_def Let_def dest: pa
             split: sum.splits prod.splits loop_exit.splits)
qed

section \<open>uploadProcess after the binding\<close>

lemma uploadProcess_Throws:
  "binding env sched request st = (Throws e, evs) \<Longrightarrow>
   uploadProcess env sched request ctx server st
     = (Some (ErrorBody (''Error processing upload: '' @ error_message env e)), evs)"
  by (simp add: uploadProcess_def try_block_def)

lemma uploadProcess_Returns:
  "binding env sched request st = (Returns msg, evs) \<Longrightarrow>
   uploadProcess env sched request ctx server st = (Some (ErrorBody msg), evs)"
  by (simp add: uploadProcess_def try_block_def)

lemma uploadProcess_no_ctx:
  "binding env sched request st = (Continues ops, evs) \<Longrightarrow> ctx = Inl e \<Longrightarrow>
   uploadProcess env sched request ctx server st
     = (Some (ErrorBody (''Error processing upload: '' @ error_message env e)), evs)"
  by (simp add: uploadProcess_def try_block_def)

lemma uploadProcess_Continues:
  "binding env sched request st = (Continues ops, evs) \<Longrightarrow> ctx = Inr c \<Longrightarrow>
   uploadProcess env sched request ctx server st
     = (case respond (server (query ops) (clean_variables (variables ops)) c) of
          Inl e \<Rightarrow> Some (ErrorBody (''Error processing upload: '' @ error_message env e))
        | Inr r \<Rightarrow> r,
        evs @ [Invoked (query ops) (clean_variables (variables ops))])"
  by (simp add: uploadProcess_def try_block_def Let_def split: sum.splits)

lemma uploadProcess_not_Continues:
  assumes "\<And>ops. fst (binding env sched request st) \<noteq> Continues ops"
  shows "is_error_body (fst (uploadProcess env sched request ctx server st))
         \<and> \<not> engine_invoked (snd (uploadProcess env sched request ctx server st))"
proof -
  obtain r evs where b: "binding env sched request st = (r, evs)"
    by (cases "binding env sched request st")
  have evs: "\<not> engine_invoked evs"
    using binding_not_invoked [of env sched request st] by (simp add: b)
  show ?thesis
  proof (cases r)
    case (Throws e)
    with b evs show ?thesis by (simp add: uploadProcess_Throws is_error_body_def)
  next
    case (Returns msg)
    with b evs show ?thesis by (simp add: uploadProcess_Returns is_error_body_def)
  next
    case (Continues ops)
    with b assms [of ops] show ?thesis by simp
  qed
qed

lemma respond_incremental:
  "respond (ExecIncremental i subs None) = Inr (Some (ResultsBody (i # subs)))"
proof -
  have "foldl (\<lambda>results result. results @ [result]) acc subs = acc @ subs" for acc :: "'a list"
    by (induction subs arbitrary: acc) simp_all
  then show ?thesis by simp
qed

lemma uploadProcess_no_response:
  "fst (uploadProcess env sched request ctx server st) = None \<longleftrightarrow>
     (\<exists>ops evs c kind. binding env sched request st = (Continues ops, evs) \<and> ctx = Inr c
        \<and> server (query ops) (clean_variables (variables ops)) c = ExecOther kind)"
proof -
  obtain r evs where b: "binding env sched request st = (r, evs)"
    by (cases "binding env sched request st")
  show ?thesis
  proof (cases r)
    case (Throws e)
    with b show ?thesis by (simp add: uploadProcess_Throws)
  next
    case (Returns msg)
    with b show ?thesis by (simp add: uploadProcess_Returns)
  next
    case (Continues ops)
    show ?thesis
    proof (cases ctx)
      case (Inl e)
      with b Continues show ?thesis by (simp add: uploadProcess_no_ctx)
    next
      case (Inr c)
      have "(case respond (server (query ops) (clean_variables (variables ops)) c) of
               Inl e \<Rightarrow> Some (ErrorBody (''Error processing upload: '' @ error_message env e))
             | Inr r \<Rightarrow> r) = None
            \<longleftrightarrow> (\<exists>kind. server (query ops) (clean_variables (variables ops)) c = ExecOther kind)"
        by (cases "server (query ops) (clean_variables (variables ops)) c")
           (auto simp: Let_def split: option.splits)
      with b Continues Inr show ?thesis by (simp add: uploadProcess_Continues)
    qed
  qed
qed

section \<open>The dispatch loop\<close>

lemma lookup_file_Some: "files k = Some f \<Longrightarrow> lookup_file env files k = Some (Part f)"
  by (simp add: lookup_file_def)

lemma lookup_file_Part: "lookup_file env files k = Some (Part f) \<longleftrightarrow> files k = Some f"
  by (auto simp: lookup_file_def split: option.splits if_splits)

lemma dispatch_loop_pass:
  "list_all2 (dispatches env st files m) pre new \<Longrightarrow>
   dispatch_loop env st files m (pre @ rest) acc = dispatch_loop env st files m rest (acc @ new)"
proof (induction pre new arbitrary: acc rule: list_all2_induct)
  case Nil
  show ?case by simp
next
  case (Cons k pre t new)
  obtain k' x v where t: "t = (k', x, v)" by (cases t)
  from Cons.hyps(1) t have facts: "k' = k" "lookup_file env files k = Some x"
    "\<not> oversized st x" "variable_name (map_of (props m) k) = Inr v"
    by (auto simp: dispatches_def)
  have "dispatch_loop env st files m ((k # pre) @ rest) acc
          = dispatch_loop env st files m (pre @ rest) (acc @ [t])"
    using facts t by simp
  also have "\<dots> = dispatch_loop env st files m rest ((acc @ [t]) @ new)"
    by (rule Cons.IH)
  finally show ?case by simp
qed

lemma dispatch_loop_done:
  "dispatch_loop env st files m keys acc = (LoopDone, ts) \<Longrightarrow>
   \<exists>new. ts = acc @ new \<and> list_all2 (dispatches env st files m) keys new"
proof (induction keys arbitrary: acc)
  case Nil
  then show ?case by simp
next
  case (Cons k keys)
  from Cons.prems obtain x where x: "lookup_file env files k = Some x"
    by (cases "lookup_file env files k") auto
  from Cons.prems x have size: "\<not> oversized st x"
    by (auto split: if_splits)
  from Cons.prems x size obtain v where v: "variable_name (map_of (props m) k) = Inr v"
    by (cases "variable_name (map_of (props m) k)") auto
  from Cons.prems x size v
  have "dispatch_loop env st files m keys (acc @ [(k, x, v)]) = (LoopDone, ts)" by simp
  from Cons.IH [OF this] obtain new where
    new: "ts = (acc @ [(k, x, v)]) @ new" "list_all2 (dispatches env st files m) keys new"
    by blast
  have "dispatches env st files m k (k, x, v)"
    using x size v by (simp add: dispatches_def)
  with new have "ts = acc @ ((k, x, v) # new)
                 \<and> list_all2 (dispatches env st files m) (k # keys) ((k, x, v) # new)"
    by simp
  then show ?case by blast
qed

lemma dispatch_loop_done_key:
  assumes "dispatch_loop env st files m keys [] = (LoopDone, ts)" and "k \<in> set keys"
  shows "\<exists>x v. (k, x, v) \<in> set ts \<and> lookup_file env files k = Some x"
proof -
  from dispatch_loop_done [OF assms(1)]
  have all: "list_all2 (dispatches env st files m) keys ts"
    by simp
  from assms(2) obtain i where i: "i < length keys" "keys ! i = k"
    by (auto simp: in_set_conv_nth)
  from all i have len: "i < length ts" and d: "dispatches env st files m k (ts ! i)"
    by (auto simp: list_all2_conv_all_nth)
  obtain k' x v where t: "ts ! i = (k', x, v)" by (cases "ts ! i")
  with d have "k' = k" "lookup_file env files k = Some x" by (auto simp: dispatches_def)
  with t len have "(k, x, v) \<in> set ts" by (metis nth_mem)
  with \<open>lookup_file env files k = Some x\<close> show ?thesis by blast
qed

section \<open>The binding by its cases\<close>

lemma binding_parsed:
  assumes "formData request = Inr fd"
    and "sanitizeAndValidateJSON env (form_get fd ''map'') = Inr m"
    and "sanitizeAndValidateJSON env (form_get fd ''operations'') = Inr ops"
  shows "binding env sched request st =
     (case dispatch_loop env st (extractFiles fd) m (map fst (props m)) [] of
        (LoopThrew e, ts) \<Rightarrow> (Throws e, dispatched ts)
      | (LoopReturned msg, ts) \<Rightarrow> (Returns msg, dispatched ts)
      | (LoopDone, ts) \<Rightarrow>
          (case Promise_all env sched (allowedTypes st) ts
                  (to_vars (map_of (props ops) ''variables'')) of
             (Inl e, evs) \<Rightarrow> (Throws e, dispatched ts @ evs)
           | (Inr vs, evs) \<Rightarrow>
               (Continues \<lparr>query = map_of (props ops) ''query'', variables = vs\<rparr>,
                dispatched ts @ evs)))"
  using assms by (simp add: binding_def Let_def)

lemma binding_Continues:
  assumes "binding env sched request st = (Continues ops', evs)"
  shows "\<exists>fd m ops ts vs evs'.
           formData request = Inr fd
           \<and> sanitizeAndValidateJSON env (form_get fd ''map'') = Inr m
           \<and> sanitizeAndValidateJSON env (form_get fd ''operations'') = Inr ops
           \<and> dispatch_loop env st (extractFiles fd) m (map fst (props m)) [] = (LoopDone, ts)
           \<and> Promise_all env sched (allowedTypes st) ts
                (to_vars (map_of (props ops) ''variables'')) = (Inr vs, evs')
           \<and> ops' = \<lparr>query = map_of (props ops) ''query'', variables = vs\<rparr>
           \<and> evs = dispatched ts @ evs'"
  using assms
  by (auto simp: binding_def Let_def split: sum.splits prod.splits loop_exit.splits)

section \<open>The scenario, evaluated\<close>

lemma demo_texts:
  "demo_map_text \<noteq> demo_map2_text" "demo_map_text \<noteq> demo_operations_text"
  "demo_map2_text \<noteq> demo_operations_text" "demo_operations_text \<noteq> demo_map_text"
  "demo_operations_text \<noteq> demo_map2_text" "demo_map2_text \<noteq> demo_map_text"
  "demo_map_inherited_text \<noteq> demo_map_text" "demo_map_inherited_text \<noteq> demo_map2_text"
  "demo_operations_text \<noteq> demo_map_inherited_text"
  by (simp_all add: demo_map_text_def demo_map2_text_def demo_operations_text_def
        demo_map_inherited_text_def)

lemma demo_sanitize_map [simp]:
  "sanitizeAndValidateJSON demo_env (Some (TextEntry demo_map_text)) = Inr demo_map"
  by (simp add: sanitizeAndValidateJSON_def JSON_parse_input_def demo_env_def demo_parse_def
        demo_map_def)

lemma demo_sanitize_map2 [simp]:
  "sanitizeAndValidateJSON demo_env (Some (TextEntry demo_map2_text)) = Inr demo_map2"
  by (simp add: sanitizeAndValidateJSON_def JSON_parse_input_def demo_env_def demo_parse_def
        demo_map2_def demo_texts)

lemma demo_sanitize_map_inherited [simp]:
  "sanitizeAndValidateJSON demo_env (Some (TextEntry demo_map_inherited_text))
     = Inr demo_map_inherited"
  by (simp add: sanitizeAndValidateJSON_def JSON_parse_input_def demo_env_def demo_parse_def
        demo_map_inherited_def demo_texts)

lemma demo_sanitize_operations [simp]:
  "sanitizeAndValidateJSON demo_env (Some (TextEntry demo_operations_text)) = Inr demo_operations"
  by (simp add: sanitizeAndValidateJSON_def JSON_parse_input_def demo_env_def demo_parse_def
        demo_operations_def demo_texts)

lemma demo_variable_name [simp]:
  "variable_name (Some (JObj ArrayObject [(''0'', JStr ''variables.file'')])) = Inr ''file''"
  "variable_name (Some (JObj ArrayObject [(''0'', JStr ''variables.big'')])) = Inr ''big''"
  by (simp_all add: variable_name_def)

lemma demo_env_fields [simp]:
  "fileTypeFromBuffer demo_env b = (if take 8 b = png_signature then Some ''image/png'' else None)"
  "isText demo_env b = (0 \<notin> set b)"
  "typeErrorMessage demo_env = demo_typeErrorMessage"
  by (simp_all add: demo_env_def)

lemma demo_form_fields [simp]:
  "form_get demo_form ''map'' = Some (TextEntry demo_map_text)"
  "form_get demo_form ''operations'' = Some (TextEntry demo_operations_text)"
  "extractFiles demo_form = [''0'' \<mapsto> demo_file]"
  by (simp_all add: demo_form_def form_get_def extractFiles_def)

lemma demo_dispatch:
  "dispatch_loop demo_env demo_settings (extractFiles demo_form) demo_map
     (map fst (props demo_map)) []
     = (LoopDone, [(''0'', Part demo_file, ''file'')])"
  by (simp add: demo_settings_def demo_file_def demo_map_def lookup_file_def)

lemma demo_read:
  "processUpload_read demo_file = (Inr [0x68, 0x65, 0x6C, 0x6C, 0x6F], [Buffered ''a.txt''])"
  by (simp add: processUpload_read_def demo_file_def)

lemma demo_bind:
  "processUpload_bind demo_env demo_file [0x68, 0x65, 0x6C, 0x6C, 0x6F] ''file''
     (VarsObject PlainObject None [(''file'', Plain JNull), (''note'', Plain (JStr []))])
     [''text/plain'']
   = (Inr (VarsObject PlainObject None
             [(''file'', Bound (resolved_to demo_descriptor)), (''note'', Plain (JStr []))]),
      [Assigned ''file'' (resolved_to demo_descriptor)])"
  by (simp add: processUpload_bind_def demo_file_def png_signature_def
        resolve_new_Upload demo_descriptor_def set_prop_def Let_def)

lemma demo_binding:
  "binding demo_env [] demo_request demo_settings
     = (Continues \<lparr>query = Some (JStr ''mutation''),
                   variables = VarsObject PlainObject None
                     [(''file'', Bound (resolved_to demo_descriptor)), (''note'', Plain (JStr []))]\<rparr>,
        [Dispatched ''0'' ''file'', Buffered ''a.txt'',
         Assigned ''file'' (resolved_to demo_descriptor)])"
proof -
  have fd: "formData demo_request = Inr demo_form" by (simp add: demo_request_def)
  have m: "sanitizeAndValidateJSON demo_env (form_get demo_form ''map'') = Inr demo_map"
    by simp
  have ops: "sanitizeAndValidateJSON demo_env (form_get demo_form ''operations'')
               = Inr demo_operations"
    by simp
  have vars: "to_vars (map_of (props demo_operations) ''variables'')
                = VarsObject PlainObject None
                    [(''file'', Plain JNull), (''note'', Plain (JStr []))]"
    by (simp add: demo_operations_def)
  have q: "map_of (props demo_operations) ''query'' = Some (JStr ''mutation'')"
    by (simp add: demo_operations_def)
  have allowed: "allowedTypes demo_settings = [''text/plain'']" by (simp add: demo_settings_def)
  have valid: "\<not> invalid_properties demo_file"
    by (simp add: invalid_properties_def demo_file_def)
  have pa: "Promise_all demo_env [] [''text/plain''] [(''0'', Part demo_file, ''file'')]
              (VarsObject PlainObject None
                 [(''file'', Plain JNull), (''note'', Plain (JStr []))])
            = (Inr (VarsObject PlainObject None
                     [(''file'', Bound (resolved_to demo_descriptor)), (''note'', Plain (JStr []))]),
               [Buffered ''a.txt'', Assigned ''file'' (resolved_to demo_descriptor)])"
    by (simp add: Promise_all_def valid pick_def demo_read demo_bind remove_nth_def)
  show ?thesis
    unfolding binding_parsed [OF fd m ops] demo_dispatch vars q allowed
    by (simp add: pa dispatched_def)
qed

section \<open>Failures of the binding\<close>

lemma Promise_all_rejected:
  assumes "(k, x, v) \<in> set ts" and "rejected_at_call x"
  shows "Promise_all env sched allowed ts vs = (Inl (JsError ''Invalid file properties''), [])"
proof -
  let ?P = "\<lambda>(fileKey, x, variableName). rejected_at_call x"
  from assms have "(k, x, v) \<in> set (filter ?P ts)" by simp
  then obtain t rest where eq: "filter ?P ts = t # rest"
    by (cases "filter ?P ts") auto
  obtain k' x' v' where t: "t = (k', x', v')" by (cases t)
  have "t \<in> set (filter ?P ts)" by (simp add: eq)
  with t have "rejected_at_call x'" by simp
  then have "call_processUpload env x' v' vs allowed
               = (Inl (JsError ''Invalid file properties''), [])"
    by (cases x') (simp_all add: processUpload_invalid)
  with eq t show ?thesis by (simp add: Promise_all_def)
qed

lemma dispatches_keys: "list_all2 (dispatches env st files m) keys ts \<Longrightarrow> map fst ts = keys"
  by (induction keys ts rule: list_all2_induct) (auto simp: dispatches_def)

lemma missing_file_message:
  assumes "formData request = Inr fd"
    and "sanitizeAndValidateJSON env (form_get fd ''map'') = Inr m"
    and "sanitizeAndValidateJSON env (form_get fd ''operations'') = Inr ops"
    and "map fst (props m) = pre @ fileKey # post"
    and "list_all2 (dispatches env st (extractFiles fd) m) pre ts"
    and "lookup_file env (extractFiles fd) fileKey = None"
  shows "uploadProcess env sched request ctx server st
           = (Some (ErrorBody (''Error processing upload: ''
                               @ typeErrorMessage env (ReadOfUndefined ''size''))),
              dispatched ts)"
proof -
  have "dispatch_loop env st (extractFiles fd) m (pre @ fileKey # post) []
          = dispatch_loop env st (extractFiles fd) m (fileKey # post) ([] @ ts)"
    using assms(5) by (rule dispatch_loop_pass)
  also have "\<dots> = (LoopThrew (JsTypeError (ReadOfUndefined ''size'')), ts)"
    using assms(6) by simp
  finally have "binding env sched request st
                  = (Throws (JsTypeError (ReadOfUndefined ''size'')), dispatched ts)"
    by (simp add: binding_parsed [OF assms(1-3)] assms(4))
  then show ?thesis by (simp add: uploadProcess_Throws error_message_def)
qed

text \<open>
  Claim C5: when a field name of the map has no uploaded file part, the function answers
  with an error body and the execution engine is not invoked. (When the loop reaches the
  key it throws the runtime's \<open>TypeError\<close> on reading \<open>size\<close> of \<open>undefined\<close>, or, the name
  being one a prototype has, dispatches a task that is rejected at once.)
\<close>

theorem C5_missing_file_fails:
  assumes "formData request = Inr fd"
    and "sanitizeAndValidateJSON env (form_get fd ''map'') = Inr m"
    and "fileKey \<in> set (map fst (props m))"
    and "extractFiles fd fileKey = None"
  shows "is_error_body (fst (uploadProcess env sched request ctx server st))
         \<and> \<not> engine_invoked (snd (uploadProcess env sched request ctx server st))"
proof (rule uploadProcess_not_Continues)
  fix ops'
  show "fst (binding env sched request st) \<noteq> Continues ops'"
  proof
    assume "fst (binding env sched request st) = Continues ops'"
    then obtain evs where "binding env sched request st = (Continues ops', evs)"
      by (cases "binding env sched request st") simp
    from binding_Continues [OF this] assms(1,2) obtain ops ts vs' evs' where
      loop: "dispatch_loop env st (extractFiles fd) m (map fst (props m)) [] = (LoopDone, ts)"
      and all: "Promise_all env sched (allowedTypes st) ts
                  (to_vars (map_of (props ops) ''variables'')) = (Inr vs', evs')"
      by auto
    from dispatch_loop_done_key [OF loop assms(3)] obtain x v where
      t: "(fileKey, x, v) \<in> set ts" and x: "lookup_file env (extractFiles fd) fileKey = Some x"
      by blast
    from x assms(4) have "rejected_at_call x"
      by (cases x) (simp_all add: lookup_file_Part)
    from Promise_all_rejected [OF t this] all show False by simp
  qed
qed

text \<open>
  The scenario without the file part \<open>0\<close> that the map names; and a map that names
  \<open>constructor\<close>, for which no part was uploaded either.
\<close>

theorem C5_missing_file_fails_witness:
  "formData \<lparr>formData = Inr demo_form_missing\<rparr> = Inr demo_form_missing
   \<and> sanitizeAndValidateJSON demo_env (form_get demo_form_missing ''map'') = Inr demo_map
   \<and> ''0'' \<in> set (map fst (props demo_map))
   \<and> extractFiles demo_form_missing ''0'' = None
   \<and> is_error_body (fst (uploadProcess demo_env [] \<lparr>formData = Inr demo_form_missing\<rparr>
                            (Inr ()) demo_server demo_settings))
   \<and> \<not> engine_invoked (snd (uploadProcess demo_env [] \<lparr>formData = Inr demo_form_missing\<rparr>
                               (Inr ()) demo_server demo_settings))
   \<and> formData \<lparr>formData = Inr demo_form_inherited\<rparr> = Inr demo_form_inherited
   \<and> sanitizeAndValidateJSON demo_env (form_get demo_form_inherited ''map'')
       = Inr demo_map_inherited
   \<and> ''constructor'' \<in> set (map fst (props demo_map_inherited))
   \<and> extractFiles demo_form_inherited ''constructor'' = None
   \<and> is_error_body (fst (uploadProcess demo_env [] \<lparr>formData = Inr demo_form_inherited\<rparr>
                            (Inr ()) demo_server demo_settings))
   \<and> \<not> engine_invoked (snd (uploadProcess demo_env [] \<lparr>formData = Inr demo_form_inherited\<rparr>
                               (Inr ()) demo_server demo_settings))"
proof -
  have h1: "formData \<lparr>formData = Inr demo_form_missing\<rparr> = Inr demo_form_missing" by simp
  have h2: "sanitizeAndValidateJSON demo_env (form_get demo_form_missing ''map'') = Inr demo_map"
    by (simp add: demo_form_missing_def form_get_def)
  have h3: "''0'' \<in> set (map fst (props demo_map))" by (simp add: demo_map_def)
  have h4: "extractFiles demo_form_missing ''0'' = None"
    by (simp add: demo_form_missing_def extractFiles_def)
  have g1: "formData \<lparr>formData = Inr demo_form_inherited\<rparr> = Inr demo_form_inherited"
    by simp
  have g2: "sanitizeAndValidateJSON demo_env (form_get demo_form_inherited ''map'')
              = Inr demo_map_inherited"
    by (simp add: demo_form_inherited_def form_get_def)
  have g3: "''constructor'' \<in> set (map fst (props demo_map_inherited))"
    by (simp add: demo_map_inherited_def)
  have g4: "extractFiles demo_form_inherited ''constructor'' = None"
    by (simp add: demo_form_inherited_def extractFiles_def)
  from C5_missing_file_fails [OF h1 h2 h3 h4] C5_missing_file_fails [OF g1 g2 g3 g4]
    h1 h2 h3 h4 g1 g2 g3 g4
  show ?thesis by blast
qed

text \<open>
  What the two requests of the witness get: the \<open>TypeError\<close> at the loop, and the rejection
  of the task dispatched for the inherited name.
\<close>

lemma missing_and_inherited_scenarios:
  "uploadProcess demo_env [] \<lparr>formData = Inr demo_form_missing\<rparr> (Inr ()) demo_server
     demo_settings
     = (Some (ErrorBody
               ''Error processing upload: Cannot read properties of undefined (reading size)''),
        [])"
  "uploadProcess demo_env [] \<lparr>formData = Inr demo_form_inherited\<rparr> (Inr ()) demo_server
     demo_settings
     = (Some (ErrorBody ''Error processing upload: Invalid file properties''),
        [Dispatched ''constructor'' ''file''])"
proof -
  have inh: "inherited demo_env False ''0'' = False" "inherited demo_env False ''constructor''"
    by (simp_all add: demo_env_def)
  have b1: "binding demo_env [] \<lparr>formData = Inr demo_form_missing\<rparr> demo_settings
              = (Throws (JsTypeError (ReadOfUndefined ''size'')), [])"
    by (simp add: binding_def demo_form_missing_def form_get_def extractFiles_def
          demo_map_def lookup_file_def inh dispatched_def)
  have b2: "binding demo_env [] \<lparr>formData = Inr demo_form_inherited\<rparr> demo_settings
              = (Throws (JsError ''Invalid file properties''), [Dispatched ''constructor'' ''file''])"
    by (simp add: binding_def demo_form_inherited_def form_get_def extractFiles_def
          demo_map_inherited_def lookup_file_def inh dispatched_def Promise_all_def)
  show "uploadProcess demo_env [] \<lparr>formData = Inr demo_form_missing\<rparr> (Inr ()) demo_server
     demo_settings
     = (Some (ErrorBody
               ''Error processing upload: Cannot read properties of undefined (reading size)''),
        [])"
    by (simp add: uploadProcess_Throws [OF b1] error_message_def)
  show "uploadProcess demo_env [] \<lparr>formData = Inr demo_form_inherited\<rparr> (Inr ()) demo_server
     demo_settings
     = (Some (ErrorBody ''Error processing upload: Invalid file properties''),
        [Dispatched ''constructor'' ''file''])"
    by (simp add: uploadProcess_Throws [OF b2] error_message_def)
qed

text \<open>
  Claim C10: for a mapped file whose name is empty, whose declared size is 0 or whose
  declared type is empty, \<open>processUpload\<close> throws \<open>Invalid file properties\<close>, and the
  function answers with an error body without invoking the execution engine, whatever the
  size ceiling and the allowed types are.
\<close>

theorem C10_invalid_properties_rejected:
  assumes "formData request = Inr fd"
    and "sanitizeAndValidateJSON env (form_get fd ''map'') = Inr m"
    and "fileKey \<in> set (map fst (props m))"
    and "extractFiles fd fileKey = Some f"
    and "f_name f = [] \<or> f_size f = 0 \<or> f_type f = []"
  shows "processUpload env f variableName vs (allowedTypes st)
           = (Inl (JsError ''Invalid file properties''), [])
         \<and> is_error_body (fst (uploadProcess env sched request ctx server st))
         \<and> \<not> engine_invoked (snd (uploadProcess env sched request ctx server st))"
proof -
  from assms(5) have invalid: "invalid_properties f" by (simp add: invalid_properties_def)
  have "fst (binding env sched request st) \<noteq> Continues ops'" for ops'
  proof
    assume "fst (binding env sched request st) = Continues ops'"
    then obtain evs where "binding env sched request st = (Continues ops', evs)"
      by (cases "binding env sched request st") simp
    from binding_Continues [OF this] assms(1,2) obtain ops ts vs' evs' where
      loop: "dispatch_loop env st (extractFiles fd) m (map fst (props m)) [] = (LoopDone, ts)"
      and all: "Promise_all env sched (allowedTypes st) ts
                  (to_vars (map_of (props ops) ''variables'')) = (Inr vs', evs')"
      by auto
    from dispatch_loop_done_key [OF loop assms(3)] obtain x v where
      t: "(fileKey, x, v) \<in> set ts" and x: "lookup_file env (extractFiles fd) fileKey = Some x"
      by blast
    from x assms(4) have "x = Part f" by (simp add: lookup_file_Some)
    with invalid have "rejected_at_call x" by simp
    from Promise_all_rejected [OF t this] all show False by simp
  qed
  then have "is_error_body (fst (uploadProcess env sched request ctx server st))
             \<and> \<not> engine_invoked (snd (uploadProcess env sched request ctx server st))"
    by (rule uploadProcess_not_Continues)
  with invalid show ?thesis by (simp add: processUpload_invalid)
qed

text \<open>
  A zero-byte upload declared \<open>text/plain\<close>, within the ceiling of 1024 bytes and with the
  allowed type \<open>text/plain\<close>.
\<close>

theorem C10_invalid_properties_rejected_witness:
  "formData \<lparr>formData = Inr demo_form_empty\<rparr> = Inr demo_form_empty
   \<and> sanitizeAndValidateJSON demo_env (form_get demo_form_empty ''map'') = Inr demo_map
   \<and> ''0'' \<in> set (map fst (props demo_map))
   \<and> extractFiles demo_form_empty ''0'' = Some demo_empty_file
   \<and> f_size demo_empty_file = 0
   \<and> int (f_size demo_empty_file) \<le> maxFileSize demo_settings
   \<and> f_type demo_empty_file \<in> set (allowedTypes demo_settings)
   \<and> processUpload demo_env demo_empty_file ''file'' (VarsObject PlainObject None [])
        (allowedTypes demo_settings) = (Inl (JsError ''Invalid file properties''), [])
   \<and> is_error_body (fst (uploadProcess demo_env [] \<lparr>formData = Inr demo_form_empty\<rparr>
                            (Inr ()) demo_server demo_settings))
   \<and> \<not> engine_invoked (snd (uploadProcess demo_env [] \<lparr>formData = Inr demo_form_empty\<rparr>
                               (Inr ()) demo_server demo_settings))"
proof -
  have h1: "formData \<lparr>formData = Inr demo_form_empty\<rparr> = Inr demo_form_empty" by simp
  have h2: "sanitizeAndValidateJSON demo_env (form_get demo_form_empty ''map'') = Inr demo_map"
    by (simp add: demo_form_empty_def form_get_def)
  have h3: "''0'' \<in> set (map fst (props demo_map))" by (simp add: demo_map_def)
  have h4: "extractFiles demo_form_empty ''0'' = Some demo_empty_file"
    by (simp add: demo_form_empty_def extractFiles_def)
  have h5: "f_size demo_empty_file = 0" by (simp add: demo_empty_file_def)
  have h6: "int (f_size demo_empty_file) \<le> maxFileSize demo_settings"
    "f_type demo_empty_file \<in> set (allowedTypes demo_settings)"
    by (simp_all add: demo_empty_file_def demo_settings_def)
  from C10_invalid_properties_rejected [OF h1 h2 h3 h4 disjI2 [OF disjI1 [OF h5]]]
    h1 h2 h3 h4 h5 h6
  show ?thesis by blast
qed

section \<open>The size ceiling\<close>

text \<open>
  Claim C2: when the loop over the keys of the map reaches a key whose file has a declared
  size above \<open>maxFileSize\<close> (every earlier key was dispatched), the function returns the
  error body whose message gives \<open>maxFileSize / (1024 * 1024)\<close> as the runtime prints that
  number; tasks were dispatched for the earlier keys only, none for this key or a later one,
  and the execution engine is not invoked.
\<close>

theorem C2_oversized_file_aborts:
  assumes "formData request = Inr fd"
    and "sanitizeAndValidateJSON env (form_get fd ''map'') = Inr m"
    and "sanitizeAndValidateJSON env (form_get fd ''operations'') = Inr ops"
    and "map fst (props m) = pre @ fileKey # post"
    and "list_all2 (dispatches env st (extractFiles fd) m) pre ts"
    and "extractFiles fd fileKey = Some f"
    and "int (f_size f) > maxFileSize st"
  shows "uploadProcess env sched request ctx server st
           = (Some (ErrorBody (''File size is too large. Maximum allowed size is ''
                               @ numberToString env (of_int (maxFileSize st) / (1024 * 1024))
                               @ ''MB.'')),
              map (\<lambda>(k, f, v). Dispatched k v) ts)
         \<and> map fst ts = pre
         \<and> \<not> engine_invoked (snd (uploadProcess env sched request ctx server st))"
proof -
  have "dispatch_loop env st (extractFiles fd) m (pre @ fileKey # post) []
          = dispatch_loop env st (extractFiles fd) m (fileKey # post) ([] @ ts)"
    using assms(5) by (rule dispatch_loop_pass)
  also have "\<dots> = (LoopReturned (size_error env st), ts)"
    using assms(6,7) by (simp add: lookup_file_Some)
  finally have "binding env sched request st = (Returns (size_error env st), dispatched ts)"
    by (simp add: binding_parsed [OF assms(1-3)] assms(4))
  then have "uploadProcess env sched request ctx server st
               = (Some (ErrorBody (size_error env st)), dispatched ts)"
    by (rule uploadProcess_Returns)
  moreover have "map fst ts = pre" using assms(5) by (rule dispatches_keys)
  ultimately show ?thesis by (simp add: size_error_def dispatched_def [symmetric])
qed

text \<open>
  Two mapped files and a ceiling of 1024 bytes: the first is dispatched, the second
  declares 2048 bytes.
\<close>

theorem C2_oversized_file_aborts_witness:
  "formData \<lparr>formData = Inr demo_form2\<rparr> = Inr demo_form2
   \<and> sanitizeAndValidateJSON demo_env (form_get demo_form2 ''map'') = Inr demo_map2
   \<and> sanitizeAndValidateJSON demo_env (form_get demo_form2 ''operations'') = Inr demo_operations
   \<and> map fst (props demo_map2) = [''0''] @ ''1'' # []
   \<and> list_all2 (dispatches demo_env demo_settings (extractFiles demo_form2) demo_map2) [''0'']
        [(''0'', Part demo_file, ''file'')]
   \<and> extractFiles demo_form2 ''1'' = Some demo_big_file
   \<and> int (f_size demo_big_file) > maxFileSize demo_settings
   \<and> uploadProcess demo_env [] \<lparr>formData = Inr demo_form2\<rparr> (Inr ()) demo_server demo_settings
       = (Some (ErrorBody ''File size is too large. Maximum allowed size is 0.0009765625MB.''),
          [Dispatched ''0'' ''file''])"
proof -
  have h1: "formData \<lparr>formData = Inr demo_form2\<rparr> = Inr demo_form2" by simp
  have h2: "sanitizeAndValidateJSON demo_env (form_get demo_form2 ''map'') = Inr demo_map2"
    by (simp add: demo_form2_def form_get_def)
  have h3: "sanitizeAndValidateJSON demo_env (form_get demo_form2 ''operations'')
              = Inr demo_operations"
    by (simp add: demo_form2_def form_get_def)
  have h4: "map fst (props demo_map2) = [''0''] @ ''1'' # []" by (simp add: demo_map2_def)
  have h5: "list_all2 (dispatches demo_env demo_settings (extractFiles demo_form2) demo_map2) [''0'']
              [(''0'', Part demo_file, ''file'')]"
    by (simp add: dispatches_def demo_form2_def extractFiles_def demo_settings_def
          demo_file_def demo_map2_def lookup_file_def)
  have h6: "extractFiles demo_form2 ''1'' = Some demo_big_file"
    by (simp add: demo_form2_def extractFiles_def)
  have h7: "int (f_size demo_big_file) > maxFileSize demo_settings"
    by (simp add: demo_big_file_def demo_settings_def)
  have shown: "numberToString demo_env (of_int (maxFileSize demo_settings) / 1048576)
                = ''0.0009765625''"
    by (simp add: demo_env_def demo_settings_def)
  from C2_oversized_file_aborts [OF h1 h2 h3 h4 h5 h6 h7, of "[]" "Inr ()" demo_server]
  have "uploadProcess demo_env [] \<lparr>formData = Inr demo_form2\<rparr> (Inr ()) demo_server demo_settings
       = (Some (ErrorBody ''File size is too large. Maximum allowed size is 0.0009765625MB.''),
          [Dispatched ''0'' ''file''])"
    by (simp add: shown)
  with h1 h2 h3 h4 h5 h6 h7 show ?thesis by blast
qed

section \<open>Cleaning, executing, responding\<close>

lemma clean_fold_lookup_step:
  "map_of (clean_step ps a) k =
     (if k = a \<and> (case map_of ps a of None \<Rightarrow> True | Some s \<Rightarrow> falsy s) then None
      else map_of ps k)"
  by (auto simp: clean_step_def delete_conv split: option.splits)

lemma clean_fold_lookup:
  "map_of (foldl clean_step ps ks) k =
     (if k \<in> set ks \<and> (case map_of ps k of None \<Rightarrow> True | Some s \<Rightarrow> falsy s) then None
      else map_of ps k)"
proof (induction ks arbitrary: ps)
  case Nil
  show ?case by simp
next
  case (Cons a ks)
  have "map_of (foldl clean_step ps (a # ks)) k = map_of (foldl clean_step (clean_step ps a) ks) k"
    by simp
  also have "\<dots> = (if k \<in> set ks \<and> (case map_of (clean_step ps a) k of None \<Rightarrow> True | Some s \<Rightarrow> falsy s)
                   then None else map_of (clean_step ps a) k)"
    by (rule Cons.IH)
  also have "\<dots> = (if k \<in> set (a # ks) \<and> (case map_of ps k of None \<Rightarrow> True | Some s \<Rightarrow> falsy s)
                   then None else map_of ps k)"
    unfolding clean_fold_lookup_step by (auto split: option.splits)
  finally show ?case .
qed

lemma clean_lookup:
  "var_get (clean_variables vs) k =
     (case var_get vs k of None \<Rightarrow> None | Some s \<Rightarrow> if falsy s then None else Some s)"
proof (cases vs)
  case (VarsObject c pr ps)
  show ?thesis
    by (auto simp: VarsObject var_get_def clean_fold_lookup split: option.splits
             dest: map_of_SomeD intro: rev_image_eqI)
next
  case (VarsValue v)
  then show ?thesis by (simp add: var_get_def)
qed

text \<open>
  Claim C7: whenever the execution engine is invoked, the binding has settled, and the
  variables it is given are those the binding left, cleaned: a key whose value is falsy
  (\<open>null\<close>, \<open>false\<close>, 0, the empty string) is gone, a key with a truthy value, a bound
  handle among them, keeps that value, and no key of the variables passed holds a falsy
  value.
\<close>

theorem C7_falsy_variables_removed:
  assumes "Invoked q V \<in> set (snd (uploadProcess env sched request ctx server st))"
  shows "\<exists>ops evs. binding env sched request st = (Continues ops, evs)
           \<and> snd (uploadProcess env sched request ctx server st) = evs @ [Invoked q V]
           \<and> q = query ops \<and> V = clean_variables (variables ops)
           \<and> (\<forall>k. var_get V k =
                  (case var_get (variables ops) k of
                     None \<Rightarrow> None
                   | Some s \<Rightarrow> if falsy s then None else Some s))
           \<and> (\<forall>k s. var_get V k = Some s \<longrightarrow> \<not> falsy s)
           \<and> (\<forall>k u. var_get (variables ops) k = Some (Bound u)
                  \<longrightarrow> var_get V k = Some (Bound u))"
proof -
  obtain r evs where b: "binding env sched request st = (r, evs)"
    by (cases "binding env sched request st")
  have evs: "\<not> engine_invoked evs"
    using binding_not_invoked [of env sched request st] by (simp add: b)
  from assms have inv: "engine_invoked (snd (uploadProcess env sched request ctx server st))"
    by (rule engine_invoked_member)
  show ?thesis
  proof (cases r)
    case (Throws e)
    with b evs inv show ?thesis by (simp add: uploadProcess_Throws)
  next
    case (Returns msg)
    with b evs inv show ?thesis by (simp add: uploadProcess_Returns)
  next
    case (Continues ops)
    show ?thesis
    proof (cases ctx)
      case (Inl e)
      with b Continues evs inv show ?thesis by (simp add: uploadProcess_no_ctx)
    next
      case (Inr c)
      let ?V = "clean_variables (variables ops)"
      from b Continues Inr
      have tr: "snd (uploadProcess env sched request ctx server st)
                  = evs @ [Invoked (query ops) ?V]"
        by (simp add: uploadProcess_Continues)
      have "Invoked q V \<notin> set evs" using evs engine_invoked_member by blast
      with assms tr have eq: "q = query ops" "V = ?V" by auto
      have look: "\<forall>k. var_get ?V k =
                  (case var_get (variables ops) k of
                     None \<Rightarrow> None
                   | Some s \<Rightarrow> if falsy s then None else Some s)"
        by (simp add: clean_lookup)
      have clean: "\<forall>k s. var_get ?V k = Some s \<longrightarrow> \<not> falsy s"
        by (auto simp: clean_lookup split: option.splits if_splits)
      have kept: "\<forall>k u. var_get (variables ops) k = Some (Bound u)
                    \<longrightarrow> var_get ?V k = Some (Bound u)"
        by (simp add: clean_lookup)
      from b Continues tr eq look clean kept show ?thesis by blast
    qed
  qed
qed

lemma demo_clean:
  "clean_variables (VarsObject PlainObject None
      [(''file'', Bound (resolved_to demo_descriptor)), (''note'', Plain (JStr []))])
   = VarsObject PlainObject None [(''file'', Bound (resolved_to demo_descriptor))]"
  by (simp add: clean_step_def)

lemma demo_uploadProcess:
  "uploadProcess demo_env [] demo_request (Inr ()) server demo_settings
     = (case respond (server (Some (JStr ''mutation''))
                        (VarsObject PlainObject None [(''file'', Bound (resolved_to demo_descriptor))]) ()) of
          Inl e \<Rightarrow> Some (ErrorBody (''Error processing upload: '' @ error_message demo_env e))
        | Inr r \<Rightarrow> r,
        [Dispatched ''0'' ''file'', Buffered ''a.txt'', Assigned ''file'' (resolved_to demo_descriptor),
         Invoked (Some (JStr ''mutation''))
           (VarsObject PlainObject None [(''file'', Bound (resolved_to demo_descriptor))])])"
  using uploadProcess_Continues [OF demo_binding refl, where server = server and c = "()"]
  by (simp only: demo_clean operations.simps append.simps)

text \<open>
  The scenario: the variables parse to \<open>{"file": null, "note": ""}\<close>; the engine receives
  the handle under \<open>file\<close> and no key \<open>note\<close>.
\<close>

theorem C7_falsy_variables_removed_witness:
  "Invoked (Some (JStr ''mutation''))
     (VarsObject PlainObject None [(''file'', Bound (resolved_to demo_descriptor))])
     \<in> set (snd (uploadProcess demo_env [] demo_request (Inr ()) demo_server demo_settings))
   \<and> (\<exists>ops evs. binding demo_env [] demo_request demo_settings = (Continues ops, evs)
         \<and> var_get (variables ops) ''note'' = Some (Plain (JStr []))
         \<and> VarsObject PlainObject None [(''file'', Bound (resolved_to demo_descriptor))]
             = clean_variables (variables ops)
         \<and> var_get (clean_variables (variables ops)) ''note'' = None
         \<and> var_get (clean_variables (variables ops)) ''file''
             = Some (Bound (resolved_to demo_descriptor)))"
proof -
  have h: "Invoked (Some (JStr ''mutation''))
     (VarsObject PlainObject None [(''file'', Bound (resolved_to demo_descriptor))])
     \<in> set (snd (uploadProcess demo_env [] demo_request (Inr ()) demo_server demo_settings))"
    by (simp add: demo_uploadProcess)
  from C7_falsy_variables_removed [OF h] obtain ops evs where
    b: "binding demo_env [] demo_request demo_settings = (Continues ops, evs)"
    and V: "VarsObject PlainObject None [(''file'', Bound (resolved_to demo_descriptor))]
              = clean_variables (variables ops)"
    by blast
  from b have ops: "variables ops = VarsObject PlainObject None
      [(''file'', Bound (resolved_to demo_descriptor)), (''note'', Plain (JStr []))]"
    by (auto simp: demo_binding)
  have "var_get (variables ops) ''note'' = Some (Plain (JStr []))"
    by (simp add: ops var_get_def)
  moreover have "var_get (clean_variables (variables ops)) ''note'' = None"
    "var_get (clean_variables (variables ops)) ''file'' = Some (Bound (resolved_to demo_descriptor))"
    by (simp_all add: V [symmetric] var_get_def)
  ultimately show ?thesis using h b V by blast
qed

text \<open>
  Claim C8: once the binding has settled and the context is there, a result of kind
  \<open>single\<close> gives the body with the \<open>data\<close> and \<open>errors\<close> of the single result, and a result
  of kind \<open>incremental\<close> whose sequence ends gives the one body \<open>results\<close>: the initial result,
  then every subsequent result in the order of emission. The engine is invoked once, last.
\<close>

theorem C8_response_shape:
  assumes "binding env sched request st = (Continues ops, evs)" and "ctx = Inr c"
  shows "(server (query ops) (clean_variables (variables ops)) c = ExecSingle d errors
            \<longrightarrow> uploadProcess env sched request ctx server st
                  = (Some (DataErrors d errors),
                     evs @ [Invoked (query ops) (clean_variables (variables ops))]))
         \<and> (server (query ops) (clean_variables (variables ops)) c
               = ExecIncremental initialResult subsequentResults None
            \<longrightarrow> uploadProcess env sched request ctx server st
                  = (Some (ResultsBody (initialResult # subsequentResults)),
                     evs @ [Invoked (query ops) (clean_variables (variables ops))]))"
  using uploadProcess_Continues [OF assms, where server = server]
  by (simp add: respond_incremental del: respond.simps(4))

text \<open>The scenario with an engine of one single result, and with an incremental one.\<close>

theorem C8_response_shape_witness:
  "fst (binding demo_env [] demo_request demo_settings)
     = Continues \<lparr>query = Some (JStr ''mutation''),
                  variables = VarsObject PlainObject None
                    [(''file'', Bound (resolved_to demo_descriptor)), (''note'', Plain (JStr []))]\<rparr>
   \<and> fst (uploadProcess demo_env [] demo_request (Inr ()) demo_server demo_settings)
       = Some (DataErrors (JStr ''stored'') JNull)
   \<and> fst (uploadProcess demo_env [] demo_request (Inr ()) demo_incremental_server demo_settings)
       = Some (ResultsBody [JStr ''initial'', JStr ''first'', JStr ''second''])"
proof -
  have single: "demo_server q vs () = ExecSingle (JStr ''stored'') JNull" for q vs
    by (simp add: demo_server_def)
  have incremental: "demo_incremental_server q vs ()
      = ExecIncremental (JStr ''initial'') [JStr ''first'', JStr ''second''] None" for q vs
    by (simp add: demo_incremental_server_def)
  from C8_response_shape [OF demo_binding refl, where server = demo_server and c = "()"
      and d = "JStr ''stored''" and errors = JNull]
  have one: "fst (uploadProcess demo_env [] demo_request (Inr ()) demo_server demo_settings)
       = Some (DataErrors (JStr ''stored'') JNull)"
    by (simp add: single)
  from C8_response_shape [OF demo_binding refl, where server = demo_incremental_server
      and c = "()" and initialResult = "JStr ''initial''"
      and subsequentResults = "[JStr ''first'', JStr ''second'']"]
  have two: "fst (uploadProcess demo_env [] demo_request (Inr ()) demo_incremental_server demo_settings)
       = Some (ResultsBody [JStr ''initial'', JStr ''first'', JStr ''second''])"
    by (simp add: incremental)
  from one two show ?thesis by (simp add: demo_binding)
qed

text \<open>
  Claim C1 does not hold of the code: with a result whose body kind is neither \<open>single\<close> nor
  \<open>incremental\<close> the \<open>try\<close> block ends without a \<open>return\<close> and the function returns
  \<open>undefined\<close>, no response, after the engine was invoked.
\<close>

theorem C1_no_response_for_other_kind:
  "uploadProcess demo_env [] demo_request (Inr ()) demo_other_server demo_settings
     = (None,
        [Dispatched ''0'' ''file'', Buffered ''a.txt'', Assigned ''file'' (resolved_to demo_descriptor),
         Invoked (Some (JStr ''mutation''))
           (VarsObject PlainObject None [(''file'', Bound (resolved_to demo_descriptor))])])"
  by (simp add: demo_uploadProcess demo_other_server_def)

section \<open>The order in which the tasks finish\<close>









section \<open>The binding of the mapped parts\<close>
















section \<open>Streams, the rejection of a type, and the writes that make no own property\<close>

lemma streamToBuffer_chunks: "streamToBuffer (Readable chunks None) = Inr (concat chunks)"
proof -
  have "foldl (\<lambda>chunks chunk. chunks @ [chunk]) acc chunks = acc @ chunks" for acc :: "buffer list"
    by (induction chunks arbitrary: acc) simp_all
  then show ?thesis by simp
qed

lemma streamToBuffer_bufferToStream: "streamToBuffer (bufferToStream buf) = Inr buf"
  by (simp add: bufferToStream_def)

lemma processUpload_disallowed:
  assumes "\<not> invalid_properties f" and "streamToBuffer (f_stream f) = Inr buf"
    and "effective_mime env (f_type f) buf \<notin> set allowed"
  shows "processUpload env f v vs allowed =
           (Inl (JsError (''File type '' @ effective_mime env (f_type f) buf
                          @ '' is not allowed. Allowed types: '' @ join '', '' allowed)),
            [Buffered (f_name f)])"
  using assms
  by (simp add: processUpload_def processUpload_read_def processUpload_bind_def
        effective_mime_def Let_def)

text \<open>
  A path that ends in \<open>__proto__\<close>, the variables having no such own key: the task ends
  without an error, the handle becomes the prototype of the variables, and the variables
  have no own property \<open>__proto__\<close>. A path that ends in \<open>length\<close>, the variables being an
  array: the task is rejected with a \<open>RangeError\<close>.
\<close>

lemma processUpload_proto:
  assumes "\<not> invalid_properties f" and "streamToBuffer (f_stream f) = Inr buf"
    and "effective_mime env (f_type f) buf \<in> set allowed"
    and "map_of ps ''__proto__'' = None"
  shows "processUpload env f ''__proto__'' (VarsObject c pr ps) allowed =
           (Inr (VarsObject c (Some (resolved_to (descriptor_of env f buf))) ps),
            [Buffered (f_name f), Assigned ''__proto__'' (resolved_to (descriptor_of env f buf))])
         \<and> var_get (VarsObject c (Some (resolved_to (descriptor_of env f buf))) ps) ''__proto__''
             = None"
  using assms
  by (simp add: processUpload_def processUpload_read_def processUpload_bind_def
        effective_mime_def descriptor_of_def resolve_new_Upload Let_def var_get_def)

lemma processUpload_array_length:
  assumes "\<not> invalid_properties f" and "streamToBuffer (f_stream f) = Inr buf"
    and "effective_mime env (f_type f) buf \<in> set allowed"
  shows "processUpload env f ''length'' (VarsObject ArrayObject pr ps) allowed =
           (Inl (JsRangeError InvalidArrayLength), [Buffered (f_name f)])"
  using assms
  by (simp add: processUpload_def processUpload_read_def processUpload_bind_def
        effective_mime_def Let_def)

end
